theory Spec2Isabelle
  imports Complex_Main "HOL-Library.Word" "HOL-Library.AList"
begin

section \<open>JavaScript values used by server.js\<close>

text \<open>
  A JavaScript string is a sequence of UTF-16 code units; a \<open>Buffer\<close> (one chunk of the
  upstream stream) is a sequence of bytes. String literals of the source are written
  \<open>js ''...''\<close>.
\<close>

type_synonym jschar = "16 word"
type_synonym jsstring = "jschar list"
type_synonym byte = "8 word"

definition js :: "string \<Rightarrow> jsstring" where
  "js s = map of_char s"

definition nl :: jschar where
  "nl = 0x0A"

text \<open>\<open>s.startsWith(p)\<close>, \<open>s.includes(p)\<close>, \<open>s.slice(n)\<close> and \<open>s.split(d)\<close> for a
  one-character delimiter. \<open>split\<close> never returns an empty array: the text after the
  last delimiter (possibly empty) is its last element.\<close>

definition startsWith :: "jsstring \<Rightarrow> jsstring \<Rightarrow> bool" where
  "startsWith s p = (take (length p) s = p)"

fun js_includes :: "jsstring \<Rightarrow> jsstring \<Rightarrow> bool" where
  "js_includes [] p = (p = [])"
| "js_includes (c # cs) p = (startsWith (c # cs) p \<or> js_includes cs p)"

definition slice_from :: "jsstring \<Rightarrow> nat \<Rightarrow> jsstring" where
  "slice_from s n = drop n s"

fun split_on :: "jschar \<Rightarrow> jsstring \<Rightarrow> jsstring list" where
  "split_on d [] = [[]]"
| "split_on d (c # cs) =
     (let r = split_on d cs in if c = d then [] # r else (c # hd r) # tl r)"

subsection \<open>Buffer.prototype.toString\<close>

text \<open>
  \<open>chunk.toString()\<close> decodes the bytes of one chunk as UTF-8. A byte that cannot start
  a character, and a multi-byte character that is cut short (by a wrong byte or by the
  end of the chunk), decodes to U+FFFD; decoding resumes at the byte after the longest
  valid prefix. Code points above U+FFFF become a surrogate pair.
\<close>

definition byte_in :: "nat \<Rightarrow> nat \<Rightarrow> byte \<Rightarrow> bool" where
  "byte_in lo hi b = (lo \<le> unat b \<and> unat b \<le> hi)"

fun utf8_points :: "byte list \<Rightarrow> nat list" where
  "utf8_points [] = []"
| "utf8_points (b # bs) =
     (let n = unat b in
      if n < 0x80 then n # utf8_points bs
      else if 0xC2 \<le> n \<and> n \<le> 0xDF then
        (case bs of
           [] \<Rightarrow> [0xFFFD]
         | c1 # r1 \<Rightarrow>
             if byte_in 0x80 0xBF c1
             then ((n mod 32) * 64 + unat c1 mod 64) # utf8_points r1
             else 0xFFFD # utf8_points bs)
      else if 0xE0 \<le> n \<and> n \<le> 0xEF then
        (case bs of
           [] \<Rightarrow> [0xFFFD]
         | c1 # r1 \<Rightarrow>
             if byte_in (if n = 0xE0 then 0xA0 else 0x80) (if n = 0xED then 0x9F else 0xBF) c1
             then (case r1 of
                     [] \<Rightarrow> [0xFFFD]
                   | c2 # r2 \<Rightarrow>
                       if byte_in 0x80 0xBF c2
                       then ((n mod 16) * 4096 + (unat c1 mod 64) * 64 + unat c2 mod 64)
                              # utf8_points r2
                       else 0xFFFD # utf8_points r1)
             else 0xFFFD # utf8_points bs)
      else if 0xF0 \<le> n \<and> n \<le> 0xF4 then
        (case bs of
           [] \<Rightarrow> [0xFFFD]
         | c1 # r1 \<Rightarrow>
             if byte_in (if n = 0xF0 then 0x90 else 0x80) (if n = 0xF4 then 0x8F else 0xBF) c1
             then (case r1 of
                     [] \<Rightarrow> [0xFFFD]
                   | c2 # r2 \<Rightarrow>
                       if byte_in 0x80 0xBF c2
                       then (case r2 of
                               [] \<Rightarrow> [0xFFFD]
                             | c3 # r3 \<Rightarrow>
                                 if byte_in 0x80 0xBF c3
                                 then ((n mod 8) * 262144 + (unat c1 mod 64) * 4096
                                         + (unat c2 mod 64) * 64 + unat c3 mod 64)
                                        # utf8_points r3
                                 else 0xFFFD # utf8_points r2)
                       else 0xFFFD # utf8_points r1)
             else 0xFFFD # utf8_points bs)
      else 0xFFFD # utf8_points bs)"

definition utf16 :: "nat \<Rightarrow> jsstring" where
  "utf16 cp =
     (if cp < 0x10000 then [of_nat cp]
      else [of_nat (0xD800 + (cp - 0x10000) div 1024),
            of_nat (0xDC00 + (cp - 0x10000) mod 1024)])"

definition Buffer_toString :: "byte list \<Rightarrow> jsstring" where
  "Buffer_toString chunk = concat (map utf16 (utf8_points chunk))"

subsection \<open>JSON values\<close>

text \<open>
  The values \<open>JSON.parse\<close> produces. An object is the list of its own properties in
  order. A number is the rational its text denotes (the source only tests numbers for
  being zero). \<open>undefined\<close> is \<open>None\<close> of \<open>json option\<close>.
\<close>

datatype json =
    JNull
  | JBool bool
  | JNum rat
  | JStr jsstring
  | JArr "json list"
  | JObj "(jsstring \<times> json) list"

datatype exn = TypeError | SyntaxError

text \<open>
  What the source takes from the JavaScript runtime: \<open>JSON.parse\<close> (\<open>None\<close> when it
  throws), \<open>JSON.stringify\<close>, the conversion of a number to a string, and
  \<open>String.prototype.toLowerCase\<close> (which depends on the Unicode tables).
\<close>

record js_runtime =
  JSON_parse :: "jsstring \<Rightarrow> json option"
  JSON_stringify :: "json \<Rightarrow> jsstring"
  Number_toString :: "rat \<Rightarrow> jsstring"
  String_toLowerCase :: "jsstring \<Rightarrow> jsstring"

text \<open>Truthiness: \<open>null\<close>, \<open>false\<close>, \<open>0\<close>, \<open>""\<close> and \<open>undefined\<close> are falsy.\<close>

fun truthy :: "json \<Rightarrow> bool" where
  "truthy JNull = False"
| "truthy (JBool b) = b"
| "truthy (JNum n) = (n \<noteq> 0)"
| "truthy (JStr s) = (s \<noteq> [])"
| "truthy (JArr xs) = True"
| "truthy (JObj kvs) = True"

fun truthy_opt :: "json option \<Rightarrow> bool" where
  "truthy_opt None = False"
| "truthy_opt (Some v) = truthy v"

text \<open>
  \<open>v.k\<close> for a value \<open>v\<close> that is neither \<open>null\<close> nor \<open>undefined\<close>, and a name \<open>k\<close>
  that no prototype defines (\<open>choices\<close>, \<open>delta\<close>, \<open>content\<close>, \<open>reasoning_content\<close>,
  \<open>role\<close>, \<open>message\<close>, ...): an own property of an object, \<open>undefined\<close> otherwise.
  \<open>v[0]\<close>: the first element of an array, the property \<open>"0"\<close> of an object, the first
  character of a string.
\<close>

fun get_prop :: "json \<Rightarrow> jsstring \<Rightarrow> json option" where
  "get_prop (JObj kvs) k = map_of kvs k"
| "get_prop v k = None"

fun index0 :: "json \<Rightarrow> json option" where
  "index0 (JArr xs) = (case xs of [] \<Rightarrow> None | x # _ \<Rightarrow> Some x)"
| "index0 (JObj kvs) = map_of kvs (js ''0'')"
| "index0 (JStr s) = (case s of [] \<Rightarrow> None | c # _ \<Rightarrow> Some (JStr [c]))"
| "index0 v = None"

text \<open>
  Assignment \<open>v.k = x\<close> and \<open>delete v.k\<close> (\<open>k\<close> not an array index), and \<open>v[0] = x\<close> where
  \<open>v[0]\<close> exists. The module is not in strict mode: on a primitive the assignment does
  nothing; on an array it adds a property that \<open>JSON.stringify\<close> does not write.
\<close>

fun set_prop :: "json \<Rightarrow> jsstring \<Rightarrow> json \<Rightarrow> json" where
  "set_prop (JObj kvs) k x = JObj (AList.update k x kvs)"
| "set_prop v k x = v"

fun delete_prop :: "json \<Rightarrow> jsstring \<Rightarrow> json" where
  "delete_prop (JObj kvs) k = JObj (AList.delete k kvs)"
| "delete_prop v k = v"

fun set_index0 :: "json \<Rightarrow> json \<Rightarrow> json" where
  "set_index0 (JArr xs) x = (case xs of [] \<Rightarrow> JArr xs | _ # r \<Rightarrow> JArr (x # r))"
| "set_index0 (JObj kvs) x = JObj (AList.update (js ''0'') x kvs)"
| "set_index0 v x = v"

text \<open>
  String conversion, as the operator \<open>+\<close> applies it. An array is joined with commas
  (\<open>null\<close> elements as the empty string). An object is \<open>[object Object]\<close>, unless it has
  an own property \<open>toString\<close>: a parsed JSON value is never callable, so the conversion
  finds no method and throws a TypeError.
\<close>

fun ToString :: "js_runtime \<Rightarrow> json \<Rightarrow> exn + jsstring"
  and join :: "js_runtime \<Rightarrow> json list \<Rightarrow> exn + jsstring" where
  "ToString rt JNull = Inr (js ''null'')"
| "ToString rt (JBool b) = Inr (if b then js ''true'' else js ''false'')"
| "ToString rt (JNum n) = Inr (Number_toString rt n)"
| "ToString rt (JStr s) = Inr s"
| "ToString rt (JArr xs) = join rt xs"
| "ToString rt (JObj kvs) =
     (if map_of kvs (js ''toString'') = None then Inr (js ''[object Object]'')
      else Inl TypeError)"
| "join rt [] = Inr []"
| "join rt (x # xs) =
     (case (if x = JNull then Inr [] else ToString rt x) of
        Inl e \<Rightarrow> Inl e
      | Inr s \<Rightarrow>
          if xs = [] then Inr s
          else (case join rt xs of Inl e \<Rightarrow> Inl e | Inr t \<Rightarrow> Inr (s @ js '','' @ t)))"

text \<open>
  \<open>a + b\<close>: concatenation when an operand is a string, an array or an object, numeric
  addition otherwise. \<open>number_of\<close> is the number a \<open>null\<close> (0), a boolean (0 or 1) or a
  number stands for; it is only applied to these.
\<close>

fun is_numeric :: "json \<Rightarrow> bool" where
  "is_numeric JNull = True"
| "is_numeric (JBool b) = True"
| "is_numeric (JNum n) = True"
| "is_numeric v = False"

fun number_of :: "json \<Rightarrow> rat" where
  "number_of (JNum n) = n"
| "number_of (JBool b) = (if b then 1 else 0)"
| "number_of v = 0"

definition js_plus :: "js_runtime \<Rightarrow> json \<Rightarrow> json \<Rightarrow> exn + json" where
  "js_plus rt a b =
     (if is_numeric a \<and> is_numeric b then Inr (JNum (number_of a + number_of b))
      else (case ToString rt a of
              Inl e \<Rightarrow> Inl e
            | Inr s \<Rightarrow> (case ToString rt b of Inl e \<Rightarrow> Inl e | Inr t \<Rightarrow> Inr (JStr (s @ t)))))"

section \<open>The streaming path of the chat-completions handler\<close>

text \<open>
  \<open>data.choices?.[0]?.delta\<close> (source line 175). \<open>data.choices\<close> throws a TypeError when
  \<open>data\<close> is \<open>null\<close>; each \<open>?.\<close> yields \<open>undefined\<close> on \<open>null\<close> and \<open>undefined\<close>.
\<close>

definition first_delta :: "json \<Rightarrow> exn + json option" where
  "first_delta data =
     (case data of
        JNull \<Rightarrow> Inl TypeError
      | _ \<Rightarrow>
         (case get_prop data (js ''choices'') of
            None \<Rightarrow> Inr None
          | Some JNull \<Rightarrow> Inr None
          | Some ch \<Rightarrow>
             (case index0 ch of
                None \<Rightarrow> Inr None
              | Some JNull \<Rightarrow> Inr None
              | Some c0 \<Rightarrow> Inr (get_prop c0 (js ''delta'')))))"

text \<open>
  The event after the first choice's delta has been mutated to \<open>d\<close>: the objects on the
  path \<open>data.choices[0].delta\<close> are rebuilt, every other part of the event is the same.
\<close>

definition with_first_delta :: "json \<Rightarrow> json \<Rightarrow> json" where
  "with_first_delta data d =
     (case get_prop data (js ''choices'') of
        None \<Rightarrow> data
      | Some ch \<Rightarrow>
         (case index0 ch of
            None \<Rightarrow> data
          | Some c0 \<Rightarrow>
              set_prop data (js ''choices'') (set_index0 ch (set_prop c0 (js ''delta'') d))))"

text \<open>
  The delimiter literals the handler concatenates into \<open>combinedContent\<close>. The functions
  below return, beside what the source computes, the list of the delimiters that went
  into the content they built; nothing they compute depends on that list.
\<close>

datatype delim = Open | Close

definition THINK_OPEN :: jsstring where
  "THINK_OPEN = js ''<think>'' @ [nl]"

definition THINK_CLOSE :: jsstring where
  "THINK_CLOSE = js ''</think>'' @ [nl, nl]"

text \<open>
  Source lines 180-187: \<open>combinedContent\<close> and \<open>reasoningStarted\<close> after the first
  \<open>if\<close>/\<open>else if\<close>. The flag is returned also when the concatenation throws.
\<close>

definition reasoning_step ::
    "js_runtime \<Rightarrow> bool \<Rightarrow> json option \<Rightarrow> bool \<times> (exn + json \<times> delim list)" where
  "reasoning_step rt started reasoning =
     (case reasoning of
        None \<Rightarrow> (started, Inr (JStr [], []))
      | Some r \<Rightarrow>
          if truthy r \<and> \<not> started then
            (case js_plus rt (JStr THINK_OPEN) r of
               Inl e \<Rightarrow> (started, Inl e)
             | Inr c \<Rightarrow> (True, Inr (c, [Open])))
          else if truthy r then (started, Inr (r, []))
          else (started, Inr (JStr [], [])))"

text \<open>Source lines 189-194: the second \<open>if\<close>/\<open>else if\<close>, from the values the first left.\<close>

definition content_step ::
    "js_runtime \<Rightarrow> bool \<Rightarrow> json \<Rightarrow> json option \<Rightarrow> bool \<times> (exn + json \<times> delim list)" where
  "content_step rt started combined content =
     (case content of
        None \<Rightarrow> (started, Inr (combined, []))
      | Some c \<Rightarrow>
          if truthy c \<and> started then
            (case js_plus rt (JStr THINK_CLOSE) c of
               Inl e \<Rightarrow> (started, Inl e)
             | Inr t \<Rightarrow>
                 (case js_plus rt combined t of
                    Inl e \<Rightarrow> (started, Inl e)
                  | Inr r \<Rightarrow> (False, Inr (r, [Close]))))
          else if truthy c then
            (case js_plus rt combined c of
               Inl e \<Rightarrow> (started, Inl e)
             | Inr r \<Rightarrow> (started, Inr (r, [])))
          else (started, Inr (combined, [])))"

text \<open>
  Source lines 175-208, the body of the \<open>try\<close> between \<open>JSON.parse\<close> and \<open>res.write\<close>:
  the new value of \<open>reasoningStarted\<close>, and either the exception thrown or the event to
  serialise with the delimiters written into it.
\<close>

definition transform ::
    "js_runtime \<Rightarrow> bool \<Rightarrow> bool \<Rightarrow> json \<Rightarrow> bool \<times> (exn + json \<times> delim list)" where
  "transform rt SHOW_REASONING started data =
     (case first_delta data of
        Inl e \<Rightarrow> (started, Inl e)
      | Inr None \<Rightarrow> (started, Inr (data, []))
      | Inr (Some delta) \<Rightarrow>
          if \<not> truthy delta then (started, Inr (data, []))
          else
            let reasoning = get_prop delta (js ''reasoning_content'');
                content = get_prop delta (js ''content'')
            in
              if SHOW_REASONING then
                (case reasoning_step rt started reasoning of
                   (s1, Inl e) \<Rightarrow> (s1, Inl e)
                 | (s1, Inr (c1, d1)) \<Rightarrow>
                     (case content_step rt s1 c1 content of
                        (s2, Inl e) \<Rightarrow> (s2, Inl e)
                      | (s2, Inr (c2, d2)) \<Rightarrow>
                          if truthy c2 then
                            (s2, Inr (with_first_delta data
                                        (delete_prop (set_prop delta (js ''content'') c2)
                                           (js ''reasoning_content'')),
                                      d1 @ d2))
                          else (s2, Inr (data, []))))
              else
                (started,
                 Inr (with_first_delta data
                        (delete_prop
                           (set_prop delta (js ''content'')
                              (case content of
                                 None \<Rightarrow> JStr []
                               | Some c \<Rightarrow> if truthy c then c else JStr []))
                           (js ''reasoning_content'')),
                      [])))"

text \<open>
  Source lines 166-213, the callback of \<open>lines.forEach\<close>: the new flag, the strings given
  to \<open>res.write\<close>, and the delimiters written. A line without the prefix \<open>data: \<close> is
  dropped. The \<open>catch\<close> covers \<open>JSON.parse\<close> and everything after it.
\<close>

definition frame :: "js_runtime \<Rightarrow> json \<Rightarrow> jsstring" where
  "frame rt data = js ''data: '' @ JSON_stringify rt data @ [nl, nl]"

definition process_line ::
    "js_runtime \<Rightarrow> bool \<Rightarrow> bool \<Rightarrow> jsstring \<Rightarrow> bool \<times> jsstring list \<times> delim list" where
  "process_line rt SHOW_REASONING started line =
     (if startsWith line (js ''data: '') then
        if js_includes line (js ''[DONE]'') then (started, [line @ [nl]], [])
        else
          (case JSON_parse rt (slice_from line 6) of
             None \<Rightarrow> (started, [line @ [nl]], [])
           | Some data \<Rightarrow>
               (case transform rt SHOW_REASONING started data of
                  (s, Inl e) \<Rightarrow> (s, [line @ [nl]], [])
                | (s, Inr (data', ds)) \<Rightarrow> (s, [frame rt data'], ds)))
      else (started, [], []))"

fun forEach_line ::
    "js_runtime \<Rightarrow> bool \<Rightarrow> bool \<Rightarrow> jsstring list \<Rightarrow> bool \<times> jsstring list \<times> delim list" where
  "forEach_line rt SHOW_REASONING started [] = (started, [], [])"
| "forEach_line rt SHOW_REASONING started (line # lines) =
     (case process_line rt SHOW_REASONING started line of
        (s1, w1, d1) \<Rightarrow>
          (case forEach_line rt SHOW_REASONING s1 lines of
             (s2, w2, d2) \<Rightarrow> (s2, w1 @ w2, d1 @ d2)))"

text \<open>
  Source lines 158-215. The state of one response: \<open>buffer\<close> and \<open>reasoningStarted\<close>.
  \<open>on_data\<close> is the \<open>'data'\<close> callback; \<open>lines.pop() || ''\<close> is the last element of the
  split, which always exists.
\<close>

record stream_state =
  buffer :: jsstring
  reasoningStarted :: bool

definition on_data ::
    "js_runtime \<Rightarrow> bool \<Rightarrow> stream_state \<Rightarrow> byte list
      \<Rightarrow> stream_state \<times> jsstring list \<times> delim list" where
  "on_data rt SHOW_REASONING st chunk =
     (let lines = split_on nl (buffer st @ Buffer_toString chunk) in
      case forEach_line rt SHOW_REASONING (reasoningStarted st) (butlast lines) of
        (s, w, d) \<Rightarrow> (\<lparr>buffer = last lines, reasoningStarted = s\<rparr>, w, d))"

fun on_chunks ::
    "js_runtime \<Rightarrow> bool \<Rightarrow> stream_state \<Rightarrow> byte list list
      \<Rightarrow> stream_state \<times> jsstring list \<times> delim list" where
  "on_chunks rt SHOW_REASONING st [] = (st, [], [])"
| "on_chunks rt SHOW_REASONING st (chunk # chunks) =
     (case on_data rt SHOW_REASONING st chunk of
        (st1, w1, d1) \<Rightarrow>
          (case on_chunks rt SHOW_REASONING st1 chunks of
             (st2, w2, d2) \<Rightarrow> (st2, w1 @ w2, d1 @ d2)))"

definition initial_state :: stream_state where
  "initial_state = \<lparr>buffer = [], reasoningStarted = False\<rparr>"

text \<open>The text the client receives for the chunks the upstream delivered, and the
  complete lines the handler processed.\<close>

definition outbound :: "js_runtime \<Rightarrow> bool \<Rightarrow> byte list list \<Rightarrow> jsstring" where
  "outbound rt SHOW_REASONING chunks =
     concat (fst (snd (on_chunks rt SHOW_REASONING initial_state chunks)))"

fun complete_lines :: "jsstring \<Rightarrow> byte list list \<Rightarrow> jsstring list" where
  "complete_lines buf [] = []"
| "complete_lines buf (chunk # chunks) =
     (let lines = split_on nl (buf @ Buffer_toString chunk)
      in butlast lines @ complete_lines (last lines) chunks)"

text \<open>
  \<open>res.write(s)\<close> sends the UTF-8 encoding of the string \<open>s\<close>: a surrogate pair is one
  code point, a surrogate without its partner is sent as U+FFFD. \<open>outbound_bytes\<close> is
  what the client receives: the bytes of the strings written, in order.
\<close>

fun code_points :: "jsstring \<Rightarrow> nat list" where
  "code_points [] = []"
| "code_points (c # cs) =
     (let n = unat c in
      if 0xD800 \<le> n \<and> n \<le> 0xDBFF then
        (case cs of
           [] \<Rightarrow> [0xFFFD]
         | d # r \<Rightarrow>
             if 0xDC00 \<le> unat d \<and> unat d \<le> 0xDFFF
             then (0x10000 + (n - 0xD800) * 1024 + (unat d - 0xDC00)) # code_points r
             else 0xFFFD # code_points cs)
      else if 0xDC00 \<le> n \<and> n \<le> 0xDFFF then 0xFFFD # code_points cs
      else n # code_points cs)"

definition utf8_bytes :: "nat \<Rightarrow> byte list" where
  "utf8_bytes cp =
     (if cp < 0x80 then [of_nat cp]
      else if cp < 0x800 then [of_nat (0xC0 + cp div 64), of_nat (0x80 + cp mod 64)]
      else if cp < 0x10000 then
        [of_nat (0xE0 + cp div 4096), of_nat (0x80 + cp div 64 mod 64), of_nat (0x80 + cp mod 64)]
      else
        [of_nat (0xF0 + cp div 262144), of_nat (0x80 + cp div 4096 mod 64),
         of_nat (0x80 + cp div 64 mod 64), of_nat (0x80 + cp mod 64)])"

definition res_write :: "jsstring \<Rightarrow> byte list" where
  "res_write s = concat (map utf8_bytes (code_points s))"

definition outbound_bytes :: "js_runtime \<Rightarrow> bool \<Rightarrow> byte list list \<Rightarrow> byte list" where
  "outbound_bytes rt SHOW_REASONING chunks =
     concat (map res_write (fst (snd (on_chunks rt SHOW_REASONING initial_state chunks))))"

section \<open>The request adapter\<close>

text \<open>
  The handler destructures \<open>model\<close> and \<open>messages\<close> from \<open>req.body\<close>. Below, \<open>model\<close> is
  a string and \<open>messages\<close> is the list of the elements of an array, as the data model
  has them; for other values the handler throws (\<open>model.toLowerCase()\<close>,
  \<open>[...messages]\<close>) and answers with the error payload of its outer \<open>catch\<close>.
\<close>

subsection \<open>Model resolution (source lines 77-105 and 312-340)\<close>

definition MODEL_MAPPING :: "(jsstring \<times> jsstring) list" where
  "MODEL_MAPPING =
     [(js ''gpt-3.5-turbo'', js ''nvidia/llama-3.1-nemotron-ultra-253b-v1''),
      (js ''gpt-4'', js ''qwen/qwen3-coder-480b-a35b-instruct''),
      (js ''gpt-4-turbo'', js ''moonshotai/kimi-k2-instruct-0905''),
      (js ''gpt-4o'', js ''deepseek-ai/deepseek-v3.1''),
      (js ''claude-3-opus'', js ''openai/gpt-oss-120b''),
      (js ''claude-3-sonnet'', js ''openai/gpt-oss-20b''),
      (js ''gemini-pro'', js ''qwen/qwen3-next-80b-a3b-thinking'')]"

text \<open>
  \<open>MODEL_MAPPING\<close> is an object literal, so \<open>MODEL_MAPPING[model]\<close> also finds the
  members it inherits from \<open>Object.prototype\<close>: functions and objects, all truthy.
\<close>

definition Object_prototype :: "jsstring list" where
  "Object_prototype =
     [js ''constructor'', js ''__defineGetter__'', js ''__defineSetter__'',
      js ''hasOwnProperty'', js ''__lookupGetter__'', js ''__lookupSetter__'',
      js ''isPrototypeOf'', js ''propertyIsEnumerable'', js ''toString'', js ''valueOf'',
      js ''__proto__'', js ''toLocaleString'']"

datatype model_ref = Name jsstring | Inherited jsstring

definition lookup_model :: "jsstring \<Rightarrow> model_ref option" where
  "lookup_model model =
     (case map_of MODEL_MAPPING model of
        Some v \<Rightarrow> Some (Name v)
      | None \<Rightarrow> if model \<in> set Object_prototype then Some (Inherited model) else None)"

fun truthy_ref :: "model_ref option \<Rightarrow> bool" where
  "truthy_ref None = False"
| "truthy_ref (Some (Name s)) = (s \<noteq> [])"
| "truthy_ref (Some (Inherited k)) = True"

text \<open>The probe request: it threw (a network error or a status of 500 and above, which
  \<open>validateStatus\<close> rejects), or it returned a status.\<close>

datatype probe = Failed | Status nat

definition adopt :: "probe \<Rightarrow> bool" where
  "adopt p = (case p of Failed \<Rightarrow> False | Status n \<Rightarrow> 200 \<le> n \<and> n < 300)"

definition LARGE :: jsstring where
  "LARGE = js ''meta/llama-3.1-405b-instruct''"

definition MID :: jsstring where
  "MID = js ''meta/llama-3.1-70b-instruct''"

definition SMALL :: jsstring where
  "SMALL = js ''meta/llama-3.1-8b-instruct''"

text \<open>Source lines 96-103 (first handler) and 331-338 (second handler).\<close>

definition heuristic :: "js_runtime \<Rightarrow> jsstring \<Rightarrow> jsstring" where
  "heuristic rt model =
     (let modelLower = String_toLowerCase rt model in
      if js_includes modelLower (js ''gpt-4'') \<or> js_includes modelLower (js ''claude-opus'')
         \<or> js_includes modelLower (js ''405b'')
      then LARGE
      else if js_includes modelLower (js ''claude'') \<or> js_includes modelLower (js ''gemini'')
         \<or> js_includes modelLower (js ''70b'')
      then MID
      else MID)"

definition heuristic2 :: "js_runtime \<Rightarrow> jsstring \<Rightarrow> jsstring" where
  "heuristic2 rt model =
     (let modelLower = String_toLowerCase rt model in
      if js_includes modelLower (js ''gpt-4'') \<or> js_includes modelLower (js ''claude-opus'')
         \<or> js_includes modelLower (js ''405b'')
      then LARGE
      else if js_includes modelLower (js ''claude'') \<or> js_includes modelLower (js ''gemini'')
         \<or> js_includes modelLower (js ''70b'')
      then MID
      else SMALL)"

definition resolve_with ::
    "(jsstring \<Rightarrow> jsstring) \<Rightarrow> probe \<Rightarrow> jsstring \<Rightarrow> model_ref option" where
  "resolve_with fallback p model =
     (let nimModel = lookup_model model in
      if \<not> truthy_ref nimModel then
        (let nimModel = (if adopt p then Some (Name model) else nimModel) in
         if \<not> truthy_ref nimModel then Some (Name (fallback model)) else nimModel)
      else nimModel)"

definition resolve_model :: "js_runtime \<Rightarrow> probe \<Rightarrow> jsstring \<Rightarrow> model_ref option" where
  "resolve_model rt p model = resolve_with (heuristic rt) p model"

definition resolve_model2 :: "js_runtime \<Rightarrow> probe \<Rightarrow> jsstring \<Rightarrow> model_ref option" where
  "resolve_model2 rt p model = resolve_with (heuristic2 rt) p model"

subsection \<open>Prompt augmentation (source lines 107-128)\<close>

definition DETAILED_SYSTEM_PROMPT :: jsstring where
  "DETAILED_SYSTEM_PROMPT =
     js ''You are a helpful, knowledgeable assistant who provides comprehensive and detailed responses. When answering questions:''
     @ [nl] @ js ''- Give thorough explanations with context and examples''
     @ [nl] @ js ''- Break down complex topics into detailed sections''
     @ [nl] @ js ''- Provide multiple perspectives when relevant''
     @ [nl] @ js ''- Use elaboration rather than brevity''
     @ [nl] @ js ''- Aim for complete, well-rounded answers that fully address the question''
     @ [nl] @ js ''- Don't rush to conclude - explore the topic in depth''"

definition SUFFIX :: jsstring where
  "SUFFIX =
     [nl, nl] @ js ''IMPORTANT: Provide detailed, comprehensive responses. Elaborate fully on your answers.''"

text \<open>\<open>m.role === 'system'\<close>: a TypeError when \<open>m\<close> is \<open>null\<close>.\<close>

definition is_system :: "json \<Rightarrow> exn + bool" where
  "is_system m =
     (case m of
        JNull \<Rightarrow> Inl TypeError
      | _ \<Rightarrow> Inr (get_prop m (js ''role'') = Some (JStr (js ''system''))))"

text \<open>\<open>messages.some(m => m.role === 'system')\<close> stops at the first system message.\<close>

fun some_system :: "json list \<Rightarrow> exn + bool" where
  "some_system [] = Inr False"
| "some_system (m # ms) =
     (case is_system m of
        Inl e \<Rightarrow> Inl e
      | Inr True \<Rightarrow> Inr True
      | Inr False \<Rightarrow> some_system ms)"

text \<open>
  The callback of \<open>messages.map\<close> (lines 118-126). \<open>m.content + '...'\<close> converts a
  content that is not a string, and an absent content reads \<open>undefined\<close>.
\<close>

definition enhance :: "js_runtime \<Rightarrow> json \<Rightarrow> exn + json" where
  "enhance rt m =
     (case is_system m of
        Inl e \<Rightarrow> Inl e
      | Inr False \<Rightarrow> Inr m
      | Inr True \<Rightarrow>
          (case (case get_prop m (js ''content'') of
                   None \<Rightarrow> Inr (JStr (js ''undefined'' @ SUFFIX))
                 | Some c \<Rightarrow> js_plus rt c (JStr SUFFIX)) of
             Inl e \<Rightarrow> Inl e
           | Inr c' \<Rightarrow> Inr (set_prop m (js ''content'') c')))"

fun map_enhance :: "js_runtime \<Rightarrow> json list \<Rightarrow> exn + json list" where
  "map_enhance rt [] = Inr []"
| "map_enhance rt (m # ms) =
     (case enhance rt m of
        Inl e \<Rightarrow> Inl e
      | Inr m' \<Rightarrow> (case map_enhance rt ms of Inl e \<Rightarrow> Inl e | Inr r \<Rightarrow> Inr (m' # r)))"

definition processedMessages :: "js_runtime \<Rightarrow> bool \<Rightarrow> json list \<Rightarrow> exn + json list" where
  "processedMessages rt FORCE_DETAILED_RESPONSES messages =
     (if FORCE_DETAILED_RESPONSES then
        (case some_system messages of
           Inl e \<Rightarrow> Inl e
         | Inr hasSystemPrompt \<Rightarrow>
             if \<not> hasSystemPrompt then
               Inr (JObj [(js ''role'', JStr (js ''system'')),
                          (js ''content'', JStr DETAILED_SYSTEM_PROMPT)] # messages)
             else map_enhance rt messages)
      else Inr messages)"

subsection \<open>Parameter defaulting (source lines 131-141 and 343-350)\<close>

text \<open>The generation parameters the handler destructures from \<open>req.body\<close>, beside
  \<open>model\<close> and \<open>messages\<close>; \<open>None\<close> is \<open>undefined\<close>.\<close>

record chat_params =
  temperature :: "json option"
  max_tokens :: "json option"
  stream :: "json option"
  top_p :: "json option"
  presence_penalty :: "json option"
  frequency_penalty :: "json option"

text \<open>The request sent upstream. A field that is \<open>None\<close> is \<open>undefined\<close> or not set at
  all: the serialised request does not have it.\<close>

record nim_request =
  nim_model :: "model_ref option"
  nim_messages :: "json list"
  nim_temperature :: "json option"
  nim_max_tokens :: "json option"
  nim_top_p :: "json option"
  nim_presence_penalty :: "json option"
  nim_frequency_penalty :: "json option"
  nim_extra_body :: "json option"
  nim_stream :: "json option"

text \<open>\<open>x !== undefined ? x : d\<close> and \<open>x || d\<close>.\<close>

definition unless_undefined :: "json option \<Rightarrow> json \<Rightarrow> json" where
  "unless_undefined x d = (case x of None \<Rightarrow> d | Some v \<Rightarrow> v)"

definition or_else :: "json option \<Rightarrow> json \<Rightarrow> json" where
  "or_else x d = (case x of None \<Rightarrow> d | Some v \<Rightarrow> if truthy v then v else d)"

definition extra_body :: "bool \<Rightarrow> json option" where
  "extra_body ENABLE_THINKING_MODE =
     (if ENABLE_THINKING_MODE
      then Some (JObj [(js ''chat_template_kwargs'', JObj [(js ''thinking'', JBool True)])])
      else None)"

definition nimRequest ::
    "bool \<Rightarrow> model_ref option \<Rightarrow> json list \<Rightarrow> chat_params \<Rightarrow> nim_request" where
  "nimRequest ENABLE_THINKING_MODE nimModel processed req =
     \<lparr>nim_model = nimModel,
      nim_messages = processed,
      nim_temperature = Some (unless_undefined (temperature req) (JNum (85 / 100))),
      nim_max_tokens = Some (or_else (max_tokens req) (JNum 4096)),
      nim_top_p = Some (unless_undefined (top_p req) (JNum (95 / 100))),
      nim_presence_penalty = Some (unless_undefined (presence_penalty req) (JNum (6 / 10))),
      nim_frequency_penalty = Some (unless_undefined (frequency_penalty req) (JNum (3 / 10))),
      nim_extra_body = extra_body ENABLE_THINKING_MODE,
      nim_stream = Some (or_else (stream req) (JBool False))\<rparr>"

definition nimRequest2 ::
    "bool \<Rightarrow> model_ref option \<Rightarrow> json list \<Rightarrow> chat_params \<Rightarrow> nim_request" where
  "nimRequest2 ENABLE_THINKING_MODE nimModel msgs req =
     \<lparr>nim_model = nimModel,
      nim_messages = msgs,
      nim_temperature = Some (or_else (temperature req) (JNum (6 / 10))),
      nim_max_tokens = Some (or_else (max_tokens req) (JNum 9024)),
      nim_top_p = None,
      nim_presence_penalty = None,
      nim_frequency_penalty = None,
      nim_extra_body = extra_body ENABLE_THINKING_MODE,
      nim_stream = Some (or_else (stream req) (JBool False))\<rparr>"

section \<open>The non-streaming path (source lines 223-252)\<close>

record out_choice =
  choice_index :: "json option"
  choice_role :: "json option"
  choice_content :: json
  choice_finish_reason :: "json option"

record openai_response =
  resp_id :: jsstring
  resp_object :: jsstring
  resp_created :: nat
  resp_model :: jsstring
  resp_choices :: "out_choice list"
  resp_usage :: json

text \<open>\<open>choice.message?.k\<close>, and \<open>choice.message.k\<close>, which throws when the message is
  \<open>undefined\<close> or \<open>null\<close>.\<close>

definition message_opt :: "json \<Rightarrow> jsstring \<Rightarrow> json option" where
  "message_opt choice k =
     (case get_prop choice (js ''message'') of
        None \<Rightarrow> None
      | Some JNull \<Rightarrow> None
      | Some m \<Rightarrow> get_prop m k)"

definition message_get :: "json \<Rightarrow> jsstring \<Rightarrow> exn + json option" where
  "message_get choice k =
     (case get_prop choice (js ''message'') of
        None \<Rightarrow> Inl TypeError
      | Some JNull \<Rightarrow> Inl TypeError
      | Some m \<Rightarrow> Inr (get_prop m k))"

text \<open>\<open>((a + b) + c) + d\<close>, stopping at the first exception.\<close>

definition js_plus3 :: "js_runtime \<Rightarrow> json \<Rightarrow> json \<Rightarrow> json \<Rightarrow> json \<Rightarrow> exn + json" where
  "js_plus3 rt a b c d =
     (case js_plus rt a b of
        Inl e \<Rightarrow> Inl e
      | Inr ab \<Rightarrow> (case js_plus rt ab c of Inl e \<Rightarrow> Inl e | Inr abc \<Rightarrow> js_plus rt abc d))"

text \<open>The callback of \<open>response.data.choices.map\<close> (lines 229-244).\<close>

definition convert_choice :: "js_runtime \<Rightarrow> bool \<Rightarrow> json \<Rightarrow> exn + out_choice" where
  "convert_choice rt SHOW_REASONING choice =
     (case choice of
        JNull \<Rightarrow> Inl TypeError
      | _ \<Rightarrow>
         (case (let fullContent = or_else (message_opt choice (js ''content'')) (JStr []) in
                case message_opt choice (js ''reasoning_content'') of
                  None \<Rightarrow> Inr fullContent
                | Some r \<Rightarrow>
                    if SHOW_REASONING \<and> truthy r
                    then js_plus3 rt (JStr THINK_OPEN) r (JStr ([nl] @ THINK_CLOSE)) fullContent
                    else Inr fullContent) of
            Inl e \<Rightarrow> Inl e
          | Inr fullContent \<Rightarrow>
              (case message_get choice (js ''role'') of
                 Inl e \<Rightarrow> Inl e
               | Inr r \<Rightarrow>
                   Inr \<lparr>choice_index = get_prop choice (js ''index''),
                        choice_role = r,
                        choice_content = fullContent,
                        choice_finish_reason = get_prop choice (js ''finish_reason'')\<rparr>)))"

fun map_choices :: "js_runtime \<Rightarrow> bool \<Rightarrow> json list \<Rightarrow> exn + out_choice list" where
  "map_choices rt SHOW_REASONING [] = Inr []"
| "map_choices rt SHOW_REASONING (c # cs) =
     (case convert_choice rt SHOW_REASONING c of
        Inl e \<Rightarrow> Inl e
      | Inr c' \<Rightarrow>
          (case map_choices rt SHOW_REASONING cs of
             Inl e \<Rightarrow> Inl e
           | Inr r \<Rightarrow> Inr (c' # r)))"

definition ZERO_USAGE :: json where
  "ZERO_USAGE =
     JObj [(js ''prompt_tokens'', JNum 0), (js ''completion_tokens'', JNum 0),
           (js ''total_tokens'', JNum 0)]"

text \<open>
  \<open>openaiResponse\<close> for the inbound model identifier and the upstream's
  \<open>response.data\<close>; \<open>now1\<close> and \<open>now2\<close> are the two readings of \<open>Date.now()\<close>. An
  exception leaves the handler through its outer \<open>catch\<close>: no response of this shape
  is sent.
\<close>

definition openaiResponse ::
    "js_runtime \<Rightarrow> bool \<Rightarrow> nat \<Rightarrow> nat \<Rightarrow> jsstring \<Rightarrow> json \<Rightarrow> exn + openai_response" where
  "openaiResponse rt SHOW_REASONING now1 now2 model_in data =
     (case data of
        JNull \<Rightarrow> Inl TypeError
      | _ \<Rightarrow>
         (case get_prop data (js ''choices'') of
            Some (JArr cs) \<Rightarrow>
              (case map_choices rt SHOW_REASONING cs of
                 Inl e \<Rightarrow> Inl e
               | Inr cs' \<Rightarrow>
                   Inr \<lparr>resp_id = js ''chatcmpl-'' @ Number_toString rt (of_nat now1),
                        resp_object = js ''chat.completion'',
                        resp_created = now2 div 1000,
                        resp_model = model_in,
                        resp_choices = cs',
                        resp_usage = or_else (get_prop data (js ''usage'')) ZERO_USAGE\<rparr>)
          | _ \<Rightarrow> Inl TypeError))"

section \<open>Auxiliary definitions for the properties\<close>

text \<open>The buffer that remains after the chunks.\<close>

fun final_buffer :: "jsstring \<Rightarrow> byte list list \<Rightarrow> jsstring" where
  "final_buffer buf [] = buf"
| "final_buffer buf (chunk # chunks) =
     final_buffer (last (split_on nl (buf @ Buffer_toString chunk))) chunks"

text \<open>The bytes of an ASCII text.\<close>

definition ascii :: "string \<Rightarrow> byte list" where
  "ascii s = map of_char s"

subsection \<open>A runtime for the examples\<close>

text \<open>
  Payloads of upstream events and the values \<open>JSON.parse\<close> gives for them.
\<close>

definition P_R :: string where
  \<open>P_R = ''{"choices":[{"delta":{"reasoning_content":"R"}}]}''\<close>

definition EV_R :: json where
  "EV_R =
     JObj [(js ''choices'',
            JArr [JObj [(js ''delta'', JObj [(js ''reasoning_content'', JStr (js ''R''))])]])]"

definition P_C :: string where
  \<open>P_C = ''{"choices":[{"delta":{"content":"C"}}]}''\<close>

definition EV_C :: json where
  "EV_C =
     JObj [(js ''choices'', JArr [JObj [(js ''delta'', JObj [(js ''content'', JStr (js ''C''))])]])]"

definition P_EMPTY :: string where
  \<open>P_EMPTY = ''{"choices":[{"delta":{"reasoning_content":""}}]}''\<close>

definition EV_EMPTY :: json where
  "EV_EMPTY =
     JObj [(js ''choices'',
            JArr [JObj [(js ''delta'', JObj [(js ''reasoning_content'', JStr [])])]])]"

definition P_DONE :: string where
  \<open>P_DONE = ''{"choices":[{"delta":{"content":"[DONE]","reasoning_content":"x"}}]}''\<close>

definition EV_DONE :: json where
  "EV_DONE =
     JObj [(js ''choices'',
            JArr [JObj [(js ''delta'',
                         JObj [(js ''content'', JStr (js ''[DONE]'')),
                               (js ''reasoning_content'', JStr (js ''x''))])]])]"

definition P_TWO :: string where
  \<open>P_TWO = ''{"choices":[{"delta":{"content":"a"}},{"delta":{"reasoning_content":"x"}}]}''\<close>

definition EV_TWO :: json where
  "EV_TWO =
     JObj [(js ''choices'',
            JArr [JObj [(js ''delta'', JObj [(js ''content'', JStr (js ''a''))])],
                  JObj [(js ''delta'', JObj [(js ''reasoning_content'', JStr (js ''x''))])]])]"

text \<open>The event whose only delta has the content \<open>t\<close>, for a text \<open>t\<close> that
  \<open>JSON.stringify\<close> writes as it is: the empty text, the character U+00E9, two U+FFFD.\<close>

definition P_TEXT :: "jsstring \<Rightarrow> jsstring" where
  \<open>P_TEXT t = js ''{"choices":[{"delta":{"content":"'' @ t @ js ''"}}]}''\<close>

definition EV_TEXT :: "jsstring \<Rightarrow> json" where
  "EV_TEXT t =
     JObj [(js ''choices'', JArr [JObj [(js ''delta'', JObj [(js ''content'', JStr t)])]])]"

text \<open>An event whose content is an object with an own property \<open>toString\<close>.\<close>

definition P_ODD :: string where
  \<open>P_ODD = ''{"choices":[{"delta":{"reasoning_content":"r","content":{"toString":0}}}]}''\<close>

definition EV_ODD :: json where
  "EV_ODD =
     JObj [(js ''choices'',
            JArr [JObj [(js ''delta'',
                         JObj [(js ''reasoning_content'', JStr (js ''r'')),
                               (js ''content'', JObj [(js ''toString'', JNum 0)])])]])]"

definition demo_table :: "(jsstring \<times> json) list" where
  "demo_table =
     [(js P_R, EV_R), (js P_C, EV_C), (js P_EMPTY, EV_EMPTY), (js P_DONE, EV_DONE),
      (js P_TWO, EV_TWO), (P_TEXT [], EV_TEXT []), (P_TEXT [0xE9], EV_TEXT [0xE9]),
      (P_TEXT [0xFFFD, 0xFFFD], EV_TEXT [0xFFFD, 0xFFFD]), (js P_ODD, EV_ODD)]"

fun decimal :: "nat \<Rightarrow> jsstring" where
  "decimal n = (if n < 10 then [of_nat (48 + n)] else decimal (n div 10) @ [of_nat (48 + n mod 10)])"

text \<open>
  \<open>JSON.stringify\<close> of a value, without indentation: the properties of an object in
  the order of the list; in a string, the quotation mark, the backslash and the control
  characters are escaped, a surrogate without its partner is written as a
  \<open>u\<close>-escape with lower-case digits, every other character is written as it is.
  \<open>num\<close> prints the numbers.
\<close>

definition hex_digit :: "nat \<Rightarrow> jschar" where
  "hex_digit n = (if n < 10 then of_nat (48 + n) else of_nat (87 + n))"

definition u_escape :: "nat \<Rightarrow> jsstring" where
  "u_escape n =
     [0x5C, 0x75, hex_digit (n div 4096), hex_digit (n div 256 mod 16),
      hex_digit (n div 16 mod 16), hex_digit (n mod 16)]"

fun json_quote_body :: "jsstring \<Rightarrow> jsstring" where
  "json_quote_body [] = []"
| "json_quote_body (c # cs) =
     (let n = unat c in
      if n = 0x22 then [0x5C, 0x22] @ json_quote_body cs
      else if n = 0x5C then [0x5C, 0x5C] @ json_quote_body cs
      else if n = 0x08 then [0x5C, 0x62] @ json_quote_body cs
      else if n = 0x09 then [0x5C, 0x74] @ json_quote_body cs
      else if n = 0x0A then [0x5C, 0x6E] @ json_quote_body cs
      else if n = 0x0C then [0x5C, 0x66] @ json_quote_body cs
      else if n = 0x0D then [0x5C, 0x72] @ json_quote_body cs
      else if n < 0x20 then u_escape n @ json_quote_body cs
      else if 0xD800 \<le> n \<and> n \<le> 0xDBFF then
        (case cs of
           [] \<Rightarrow> u_escape n
         | d # r \<Rightarrow>
             if 0xDC00 \<le> unat d \<and> unat d \<le> 0xDFFF then c # d # json_quote_body r
             else u_escape n @ json_quote_body cs)
      else if 0xDC00 \<le> n \<and> n \<le> 0xDFFF then u_escape n @ json_quote_body cs
      else c # json_quote_body cs)"

definition json_quote :: "jsstring \<Rightarrow> jsstring" where
  "json_quote s = [0x22] @ json_quote_body s @ [0x22]"

fun json_text :: "(rat \<Rightarrow> jsstring) \<Rightarrow> json \<Rightarrow> jsstring"
  and json_elements :: "(rat \<Rightarrow> jsstring) \<Rightarrow> json list \<Rightarrow> jsstring"
  and json_members :: "(rat \<Rightarrow> jsstring) \<Rightarrow> (jsstring \<times> json) list \<Rightarrow> jsstring" where
  "json_text num JNull = js ''null''"
| "json_text num (JBool b) = (if b then js ''true'' else js ''false'')"
| "json_text num (JNum q) = num q"
| "json_text num (JStr s) = json_quote s"
| "json_text num (JArr xs) = js ''['' @ json_elements num xs @ js '']''"
| "json_text num (JObj kvs) = js ''{'' @ json_members num kvs @ js ''}''"
| "json_elements num [] = []"
| "json_elements num (x # xs) =
     json_text num x @ (if xs = [] then [] else js '','' @ json_elements num xs)"
| "json_members num [] = []"
| "json_members num ((k, v) # kvs) =
     json_quote k @ js '':'' @ json_text num v
     @ (if kvs = [] then [] else js '','' @ json_members num kvs)"

text \<open>
  \<open>demo_rt\<close> stands for the JavaScript runtime in the examples. Its \<open>JSON.parse\<close> is
  that of the runtime on the payloads above, and any other text counts as unparseable
  (the other texts that the examples parse are not JSON). Its \<open>JSON.stringify\<close> is
  \<open>json_text\<close>. It prints the integers in decimal (the examples have no other number)
  and lower-cases ASCII letters.
\<close>

definition demo_number :: "rat \<Rightarrow> jsstring" where
  "demo_number q =
     (if q < 0 then js ''-'' @ decimal (nat \<lfloor>- q\<rfloor>) else decimal (nat \<lfloor>q\<rfloor>))"

definition demo_rt :: js_runtime where
  "demo_rt =
     \<lparr>JSON_parse = map_of demo_table,
      JSON_stringify = json_text demo_number,
      Number_toString = demo_number,
      String_toLowerCase = map (\<lambda>c. if 0x41 \<le> c \<and> c \<le> 0x5A then c + 0x20 else c)\<rparr>"

subsection \<open>An upstream delivery that cuts a character in two\<close>

text \<open>The event whose content is U+00E9 (the bytes C3 A9 in UTF-8), delivered in two
  chunks with the boundary between the two bytes.\<close>

definition CHUNK_A :: "byte list" where
  \<open>CHUNK_A = ascii ''data: {"choices":[{"delta":{"content":"'' @ [0xC3]\<close>

definition CHUNK_B :: "byte list" where
  \<open>CHUNK_B = [0xA9] @ ascii ''"}}]}'' @ [0x0A, 0x0A]\<close>

text \<open>A line that is not JSON, \<open>data: caf\<close> followed by U+00E9 and a newline, delivered
  in two chunks with the boundary between the two bytes of the character.\<close>

definition CAFE_A :: "byte list" where
  "CAFE_A = ascii ''data: caf'' @ [0xC3]"

definition CAFE_B :: "byte list" where
  "CAFE_B = [0xA9, 0x0A]"

subsection \<open>Vocabulary of the properties of the request adapter\<close>

text \<open>The indicators of the large and of the mid tier, in the lower-cased identifier.\<close>

definition large_hint :: "jsstring \<Rightarrow> bool" where
  "large_hint l = (js_includes l (js ''gpt-4'') \<or> js_includes l (js ''claude-opus'') \<or> js_includes l (js ''405b''))"

definition mid_hint :: "jsstring \<Rightarrow> bool" where
  "mid_hint l = (js_includes l (js ''claude'') \<or> js_includes l (js ''gemini'') \<or> js_includes l (js ''70b''))"

text \<open>
  A system message; a message the augmentation can process (not \<open>null\<close>, and with a
  string as its content when it is a system message); the string content of a message;
  the message the handler prepends; a message after the augmentation of a sequence that
  has a system message.
\<close>

definition system_message :: "json \<Rightarrow> bool" where
  "system_message m = (get_prop m (js ''role'') = Some (JStr (js ''system'')))"

definition message_ok :: "json \<Rightarrow> bool" where
  "message_ok m =
     (case m of
        JNull \<Rightarrow> False
      | _ \<Rightarrow>
         if system_message m
         then (case get_prop m (js ''content'') of Some (JStr s) \<Rightarrow> True | _ \<Rightarrow> False)
         else True)"

definition content_of :: "json \<Rightarrow> jsstring" where
  "content_of m = (case get_prop m (js ''content'') of Some (JStr s) \<Rightarrow> s | _ \<Rightarrow> [])"

definition SYSTEM_MESSAGE :: json where
  "SYSTEM_MESSAGE =
     JObj [(js ''role'', JStr (js ''system'')), (js ''content'', JStr DETAILED_SYSTEM_PROMPT)]"

definition extended :: "json \<Rightarrow> json" where
  "extended m =
     (if system_message m then set_prop m (js ''content'') (JStr (content_of m @ SUFFIX)) else m)"

text \<open>Example messages, and an upstream response with one choice.\<close>

definition MSG_SYS :: json where
  "MSG_SYS = JObj [(js ''role'', JStr (js ''system'')), (js ''content'', JStr (js ''Be brief.''))]"

definition MSG_USER :: json where
  "MSG_USER = JObj [(js ''role'', JStr (js ''user'')), (js ''content'', JStr (js ''Hi''))]"

definition DATA_OK :: json where
  "DATA_OK =
     JObj [(js ''choices'',
            JArr [JObj [(js ''index'', JNum 0),
                        (js ''message'',
                         JObj [(js ''role'', JStr (js ''assistant'')),
                               (js ''content'', JStr (js ''Hello''))]),
                        (js ''finish_reason'', JStr (js ''stop''))]])]"

text \<open>An upstream response whose choice has a reasoning content, and usage statistics.\<close>

definition DATA_THINK :: json where
  "DATA_THINK =
     JObj [(js ''choices'',
            JArr [JObj [(js ''index'', JNum 0),
                        (js ''message'',
                         JObj [(js ''role'', JStr (js ''assistant'')),
                               (js ''reasoning_content'', JStr (js ''why'')),
                               (js ''content'', JStr (js ''Hello''))]),
                        (js ''finish_reason'', JStr (js ''stop''))]]),
           (js ''usage'', JObj [(js ''total_tokens'', JNum 7)])]"

subsection \<open>Vocabulary of the properties of the non-streaming path\<close>

text \<open>
  A text field of a message: a string, or a field that is absent or falsy, which the
  handler treats as absent; \<open>fragment_of\<close> is its text. A choice of the data model:
  it has a message that is not \<open>null\<close>, whose content and reasoning content are text
  fields. \<open>spec_choice\<close> is the outbound choice that section 4.2 of the specification
  describes: the content of the message, preceded by the reasoning between the
  delimiters when the flag is enabled and the message has a reasoning.
\<close>

definition text_field :: "json option \<Rightarrow> bool" where
  "text_field v = (case v of Some (JStr t) \<Rightarrow> True | _ \<Rightarrow> \<not> truthy_opt v)"

definition fragment_of :: "json option \<Rightarrow> jsstring" where
  "fragment_of v = (case v of Some (JStr t) \<Rightarrow> t | _ \<Rightarrow> [])"

definition well_formed_choice :: "json \<Rightarrow> bool" where
  "well_formed_choice c =
     (case get_prop c (js ''message'') of
        None \<Rightarrow> False
      | Some JNull \<Rightarrow> False
      | Some m \<Rightarrow>
          text_field (get_prop m (js ''content''))
          \<and> text_field (get_prop m (js ''reasoning_content'')))"

definition spec_choice :: "bool \<Rightarrow> json \<Rightarrow> out_choice" where
  "spec_choice SHOW_REASONING c =
     (let content = fragment_of (message_opt c (js ''content''));
          reasoning = fragment_of (message_opt c (js ''reasoning_content''))
      in \<lparr>choice_index = get_prop c (js ''index''),
          choice_role = message_opt c (js ''role''),
          choice_content =
            JStr ((if SHOW_REASONING \<and> reasoning \<noteq> []
                   then THINK_OPEN @ reasoning @ [nl] @ THINK_CLOSE else []) @ content),
          choice_finish_reason = get_prop c (js ''finish_reason'')\<rparr>)"

subsection \<open>Vocabulary of the properties of the streaming path\<close>

text \<open>
  The state machine of the delimiters: an opening delimiter is legal when none is open,
  a closing one when one is open. \<open>nesting opened ds\<close> is the flag after the delimiters
  \<open>ds\<close>, or \<open>None\<close> when they do not alternate.
\<close>

fun nesting :: "bool \<Rightarrow> delim list \<Rightarrow> bool option" where
  "nesting opened [] = Some opened"
| "nesting opened (Open # ds) = (if opened then None else nesting True ds)"
| "nesting opened (Close # ds) = (if opened then nesting False ds else None)"

text \<open>
  \<open>convertible rt v\<close>: the string conversion of \<open>v\<close> does not throw. It never throws
  for a string, a number, a boolean or \<open>null\<close> (a primitive), nor for an array or an
  object in which no object has an own property \<open>toString\<close>.
\<close>

definition convertible :: "js_runtime \<Rightarrow> json \<Rightarrow> bool" where
  "convertible rt v = (case ToString rt v of Inl e \<Rightarrow> False | Inr t \<Rightarrow> True)"

definition primitive :: "json \<Rightarrow> bool" where
  "primitive v = (case v of JArr xs \<Rightarrow> False | JObj kvs \<Rightarrow> False | _ \<Rightarrow> True)"

text \<open>
  \<open>delta_of rt line\<close>: the event and its first delta, for a line that the handler
  transforms (it has the prefix, does not contain the sentinel text, is parsed, and the
  first choice of the event has a truthy delta). \<open>content_converts rt line\<close>: when such
  a line has a content fragment, the string conversion of the fragment does not throw.
\<close>

definition delta_of :: "js_runtime \<Rightarrow> jsstring \<Rightarrow> (json \<times> json) option" where
  "delta_of rt line =
     (if startsWith line (js ''data: '') \<and> \<not> js_includes line (js ''[DONE]'') then
        (case JSON_parse rt (slice_from line 6) of
           None \<Rightarrow> None
         | Some data \<Rightarrow>
             (case first_delta data of
                Inr (Some delta) \<Rightarrow> if truthy delta then Some (data, delta) else None
              | _ \<Rightarrow> None))
      else None)"

definition content_converts :: "js_runtime \<Rightarrow> jsstring \<Rightarrow> bool" where
  "content_converts rt line =
     (case delta_of rt line of
        None \<Rightarrow> True
      | Some (data, delta) \<Rightarrow>
          (case get_prop delta (js ''content'') of
             None \<Rightarrow> True
           | Some c \<Rightarrow> convertible rt c))"

text \<open>
  The state machine of section 4.3, step 4, of the specification. A fragment arrives
  when it is present and truthy. A reasoning fragment is emitted after an opening
  delimiter when the flag is clear and bare when it is set, and it sets the flag; a
  content fragment is emitted after a closing delimiter when the flag is set and bare
  when it is clear, and it clears the flag. \<open>spec_emit\<close> gives the pieces emitted for
  the fragments of one delta, in order, and the new flag; \<open>marks\<close> are the delimiters
  among the pieces.
\<close>

datatype piece = Mark delim | Reasoning json | Content json

fun marks :: "piece list \<Rightarrow> delim list" where
  "marks [] = []"
| "marks (Mark d # ps) = d # marks ps"
| "marks (p # ps) = marks ps"

definition arrived :: "json option \<Rightarrow> json option" where
  "arrived v = (case v of None \<Rightarrow> None | Some x \<Rightarrow> if truthy x then Some x else None)"

definition spec_emit :: "bool \<Rightarrow> json option \<Rightarrow> json option \<Rightarrow> piece list \<times> bool" where
  "spec_emit opened reasoning content =
     (let (p1, o1) = (case reasoning of
                        None \<Rightarrow> ([], opened)
                      | Some r \<Rightarrow>
                          if opened then ([Reasoning r], True)
                          else ([Mark Open, Reasoning r], True));
          (p2, o2) = (case content of
                        None \<Rightarrow> ([], o1)
                      | Some c \<Rightarrow>
                          if o1 then ([Mark Close, Content c], False)
                          else ([Content c], False))
      in (p1 @ p2, o2))"

text \<open>
  The content that carries the pieces in the outbound delta: the concatenation of the
  texts of the pieces, a delimiter being its literal and a fragment its string
  conversion, which may throw; a reasoning fragment that is emitted bare and alone is
  the content as it is, without a conversion. \<open>spec_event\<close> is the event with that
  content in its first delta and without the reasoning field; when the content is
  falsy (nothing was emitted, or only a fragment with an empty text), it is the event
  as parsed.
\<close>

fun piece_text :: "js_runtime \<Rightarrow> piece \<Rightarrow> exn + jsstring" where
  "piece_text rt (Mark Open) = Inr THINK_OPEN"
| "piece_text rt (Mark Close) = Inr THINK_CLOSE"
| "piece_text rt (Reasoning v) = ToString rt v"
| "piece_text rt (Content v) = ToString rt v"

fun pieces_text :: "js_runtime \<Rightarrow> piece list \<Rightarrow> exn + jsstring" where
  "pieces_text rt [] = Inr []"
| "pieces_text rt (p # ps) =
     (case piece_text rt p of
        Inl e \<Rightarrow> Inl e
      | Inr t \<Rightarrow> (case pieces_text rt ps of Inl e \<Rightarrow> Inl e | Inr u \<Rightarrow> Inr (t @ u)))"

definition spec_content :: "js_runtime \<Rightarrow> piece list \<Rightarrow> exn + json" where
  "spec_content rt pieces =
     (case pieces of
        [Reasoning v] \<Rightarrow> Inr v
      | _ \<Rightarrow> (case pieces_text rt pieces of Inl e \<Rightarrow> Inl e | Inr t \<Rightarrow> Inr (JStr t)))"

definition spec_event :: "json \<Rightarrow> json \<Rightarrow> json \<Rightarrow> json" where
  "spec_event data delta w =
     (if truthy w
      then with_first_delta data
             (delete_prop (set_prop delta (js ''content'') w) (js ''reasoning_content''))
      else data)"

text \<open>
  \<open>follows_spec rt opened line result\<close>: the result of the handler for the line (the
  new flag, the strings written, the delimiters that went into them) is the one of the
  state machine. For a line without a delta: the flag is unchanged and no delimiter is
  written. For a line with a delta: when a conversion of the pieces throws, the line
  is forwarded as it came, the flag is unchanged and no delimiter is written; otherwise
  the flag is the one of the state machine, the only string written is the frame of
  the event that carries the pieces, and the delimiters are those among the pieces.
\<close>

definition follows_spec ::
    "js_runtime \<Rightarrow> bool \<Rightarrow> jsstring \<Rightarrow> bool \<times> jsstring list \<times> delim list \<Rightarrow> bool" where
  "follows_spec rt opened line result =
     (case delta_of rt line of
        None \<Rightarrow> fst result = opened \<and> snd (snd result) = []
      | Some (data, delta) \<Rightarrow>
          (case spec_emit opened (arrived (get_prop delta (js ''reasoning_content'')))
                  (arrived (get_prop delta (js ''content''))) of
             (pieces, opened') \<Rightarrow>
               (case spec_content rt pieces of
                  Inl e \<Rightarrow> result = (opened, [line @ [nl]], [])
                | Inr w \<Rightarrow>
                    result = (opened', [frame rt (spec_event data delta w)], marks pieces))))"

text \<open>Example streams: the events \<open>P_R\<close>, \<open>P_C\<close> in two chunks with the boundary inside
  the first event; the events \<open>P_EMPTY\<close>, \<open>P_C\<close>; the event \<open>P_R\<close> and an event with an
  empty content; the events \<open>P_ODD\<close>, \<open>P_C\<close>.\<close>

definition RC_CHUNKS :: "byte list list" where
  "RC_CHUNKS =
     [ascii (''data: '' @ take 20 P_R),
      ascii (drop 20 P_R) @ [0x0A, 0x0A] @ ascii (''data: '' @ P_C) @ [0x0A, 0x0A]]"

definition EMPTY_CHUNKS :: "byte list list" where
  "EMPTY_CHUNKS =
     [ascii (''data: '' @ P_EMPTY) @ [0x0A, 0x0A], ascii (''data: '' @ P_C) @ [0x0A, 0x0A]]"

definition R_THEN_EMPTY :: "byte list list" where
  \<open>R_THEN_EMPTY =
     [ascii (''data: '' @ P_R) @ [0x0A, 0x0A],
      ascii ''data: {"choices":[{"delta":{"content":""}}]}'' @ [0x0A, 0x0A]]\<close>

definition ODD_CHUNKS :: "byte list list" where
  "ODD_CHUNKS =
     [ascii (''data: '' @ P_ODD) @ [0x0A, 0x0A], ascii (''data: '' @ P_C) @ [0x0A, 0x0A]]"

text \<open>The event \<open>EV_TWO\<close> after a closing delimiter went into its first choice.\<close>

definition EV_TWO_CLOSED :: json where
  "EV_TWO_CLOSED =
     JObj [(js ''choices'',
            JArr [JObj [(js ''delta'', JObj [(js ''content'', JStr (THINK_CLOSE @ js ''a''))])],
                  JObj [(js ''delta'', JObj [(js ''reasoning_content'', JStr (js ''x''))])]])]"

section \<open>Line splitting and the buffer\<close>

lemma split_on_nonempty: "split_on d s \<noteq> []"
  by (induction s) (auto simp: Let_def)

lemma split_on_none: "d \<notin> set s \<Longrightarrow> split_on d s = [s]"
  by (induction s) (auto simp: Let_def)

lemma split_on_append:
  "split_on d (xs @ ys) = butlast (split_on d xs) @ split_on d (last (split_on d xs) @ ys)"
proof (induction xs)
  case Nil
  then show ?case by simp
next
  case (Cons c cs)
  have ne: "split_on d cs \<noteq> []" by (rule split_on_nonempty)
  have ne2: "split_on d (cs @ ys) \<noteq> []" by (rule split_on_nonempty)
  show ?case
  proof (cases "c = d")
    case True
    then show ?thesis using Cons ne by (simp add: Let_def)
  next
    case False
    obtain l ls where sp: "split_on d cs = l # ls"
      using ne by (cases "split_on d cs") auto
    show ?thesis
    proof (cases ls)
      case Nil
      with sp False Cons.IH show ?thesis by (simp add: Let_def)
    next
      case (Cons l2 ls2)
      with sp False Cons.IH ne2 show ?thesis by (simp add: Let_def)
    qed
  qed
qed

lemma last_split_on_clean: "d \<notin> set (last (split_on d s))"
proof (induction s)
  case Nil
  then show ?case by simp
next
  case (Cons c cs)
  obtain l ls where sp: "split_on d cs = l # ls"
    using split_on_nonempty [of d cs] by (cases "split_on d cs") auto
  show ?case using Cons sp by (cases ls) (auto simp: Let_def)
qed

lemma butlast_split_on_append:
  "butlast (split_on d (xs @ ys)) =
     butlast (split_on d xs) @ butlast (split_on d (last (split_on d xs) @ ys))"
  by (subst split_on_append) (simp add: butlast_append split_on_nonempty)

text \<open>The complete lines are those of the concatenated text of the chunks.\<close>

lemma complete_lines_concat:
  "nl \<notin> set buf \<Longrightarrow>
   complete_lines buf chunks = butlast (split_on nl (buf @ concat (map Buffer_toString chunks)))"
proof (induction chunks arbitrary: buf)
  case Nil
  then show ?case by (simp add: split_on_none)
next
  case (Cons c cs)
  have "complete_lines buf (c # cs) =
          butlast (split_on nl (buf @ Buffer_toString c))
          @ complete_lines (last (split_on nl (buf @ Buffer_toString c))) cs"
    by (simp add: Let_def)
  also have "\<dots> = butlast (split_on nl (buf @ Buffer_toString c))
          @ butlast (split_on nl (last (split_on nl (buf @ Buffer_toString c))
                                   @ concat (map Buffer_toString cs)))"
    by (simp add: Cons.IH last_split_on_clean)
  also have "\<dots> =
       butlast (split_on nl ((buf @ Buffer_toString c) @ concat (map Buffer_toString cs)))"
    by (rule butlast_split_on_append [symmetric])
  finally show ?case by simp
qed

lemma forEach_line_append:
  "forEach_line rt sr s (xs @ ys) =
     (case forEach_line rt sr s xs of
        (s1, w1, d1) \<Rightarrow>
          (case forEach_line rt sr s1 ys of (s2, w2, d2) \<Rightarrow> (s2, w1 @ w2, d1 @ d2)))"
  by (induction xs arbitrary: s) (auto split: prod.splits)

text \<open>The handler processes the complete lines in order, whatever the chunks were.\<close>

lemma on_chunks_lines:
  "on_chunks rt sr st chunks =
     (case forEach_line rt sr (reasoningStarted st) (complete_lines (buffer st) chunks) of
        (s, w, d) \<Rightarrow>
          (\<lparr>buffer = final_buffer (buffer st) chunks, reasoningStarted = s\<rparr>, w, d))"
proof (induction chunks arbitrary: st)
  case Nil
  then show ?case by simp
next
  case (Cons c cs)
  obtain s1 w1 d1 where h1:
    "forEach_line rt sr (reasoningStarted st)
       (butlast (split_on nl (buffer st @ Buffer_toString c))) = (s1, w1, d1)"
    using prod_cases3 by blast
  obtain s2 w2 d2 where h2:
    "forEach_line rt sr s1
       (complete_lines (last (split_on nl (buffer st @ Buffer_toString c))) cs) = (s2, w2, d2)"
    using prod_cases3 by blast
  have od: "on_data rt sr st c =
      (\<lparr>buffer = last (split_on nl (buffer st @ Buffer_toString c)), reasoningStarted = s1\<rparr>,
       w1, d1)"
    by (simp add: on_data_def Let_def h1)
  show ?case
    by (simp add: od Cons.IH h1 h2 forEach_line_append Let_def)
qed

text \<open>
  Two deliveries of the upstream whose chunks decode to the same text give the same
  outbound text. Decoding is per chunk, so this is a statement about the decoded
  chunks, not about the bytes.
\<close>

lemma outbound_same_text:
  assumes "concat (map Buffer_toString chunks1) = concat (map Buffer_toString chunks2)"
  shows "outbound rt sr chunks1 = outbound rt sr chunks2"
proof -
  have "complete_lines [] chunks1 = complete_lines [] chunks2"
    using assms by (simp add: complete_lines_concat)
  then show ?thesis
    by (simp add: outbound_def on_chunks_lines initial_state_def split: prod.splits)
qed

text \<open>ASCII bytes decode one by one, so for an ASCII stream every chunking gives the
  same text.\<close>

lemma utf8_points_ascii:
  "\<forall>b \<in> set bs. unat b < 0x80 \<Longrightarrow> utf8_points (bs @ cs) = map unat bs @ utf8_points cs"
  by (induction bs) (simp_all add: Let_def)

lemma Buffer_toString_ascii_chunks:
  "\<forall>c \<in> set chunks. \<forall>b \<in> set c. unat b < 0x80 \<Longrightarrow>
   concat (map Buffer_toString chunks) = Buffer_toString (concat chunks)"
proof (induction chunks)
  case Nil
  then show ?case by (simp add: Buffer_toString_def)
next
  case (Cons c cs)
  have a: "\<forall>b \<in> set c. unat b < 0x80" using Cons.prems by simp
  have "Buffer_toString (c @ concat cs) = Buffer_toString c @ Buffer_toString (concat cs)"
    using utf8_points_ascii [OF a, of "concat cs"] utf8_points_ascii [OF a, of "[]"]
    by (simp add: Buffer_toString_def)
  then show ?case using Cons by simp
qed

lemma outbound_ascii:
  assumes "\<forall>c \<in> set chunks1. \<forall>b \<in> set c. unat b < 0x80"
    and "\<forall>c \<in> set chunks2. \<forall>b \<in> set c. unat b < 0x80"
    and "concat chunks1 = concat chunks2"
  shows "outbound rt sr chunks1 = outbound rt sr chunks2"
  by (rule outbound_same_text) (simp add: Buffer_toString_ascii_chunks assms)

section \<open>Evaluating the examples\<close>

lemmas eval_string = js_def ascii_def nl_def startsWith_def slice_from_def Let_def
lemmas eval_decode = Buffer_toString_def utf16_def byte_in_def
lemmas eval_payload = P_R_def P_C_def P_EMPTY_def P_DONE_def P_TWO_def P_TEXT_def P_ODD_def
lemmas eval_event = EV_R_def EV_C_def EV_EMPTY_def EV_DONE_def EV_TWO_def EV_TEXT_def EV_ODD_def
lemmas eval_demo = demo_rt_def demo_table_def

lemma slice_data: "slice_from (js ''data: '' @ p) 6 = p"
  by (simp add: slice_from_def js_def)

lemma startsWith_data: "startsWith (js ''data: '' @ p) (js ''data: '')"
  by (simp add: startsWith_def js_def)

lemma empty_line: "process_line rt sr s [] = (s, [], [])"
  by (simp add: process_line_def startsWith_def js_def)

lemma outbound_lines:
  "outbound rt sr chunks =
     concat (fst (snd (forEach_line rt sr False (complete_lines [] chunks))))"
  by (simp add: outbound_def on_chunks_lines initial_state_def split: prod.splits)

lemma split_on_first: "d \<notin> set s \<Longrightarrow> split_on d (s @ d # t) = s # split_on d t"
  by (induction s) (auto simp: Let_def)

lemma outbound_bytes_lines:
  "outbound_bytes rt sr chunks =
     concat (map res_write (fst (snd (forEach_line rt sr False (complete_lines [] chunks)))))"
  by (simp add: outbound_bytes_def on_chunks_lines initial_state_def split: prod.splits)

text \<open>On the payloads of the examples, \<open>json_text\<close> is the inverse of the parse. The
  text of an event with one content is the payload with the content quoted.\<close>

lemma demo_table_consistent:
  "\<forall>p \<in> set demo_table. json_text demo_number (snd p) = fst p"
  by (simp add: demo_table_def eval_payload eval_event js_def json_quote_def demo_number_def Let_def)

lemma stringify_text: "json_text num (EV_TEXT t) = P_TEXT (json_quote_body t)"
  by (simp add: EV_TEXT_def P_TEXT_def js_def json_quote_def Let_def)

lemma frame_text:
  "frame demo_rt (EV_TEXT t) = js ''data: '' @ P_TEXT (json_quote_body t) @ [nl, nl]"
  by (simp add: frame_def demo_rt_def stringify_text)

lemma quote_think:
  "json_quote_body (THINK_OPEN @ js ''R'') = js ''<think>'' @ [0x5C, 0x6E] @ js ''R''"
  "json_quote_body (THINK_CLOSE @ js ''C'') = js ''</think>'' @ [0x5C, 0x6E, 0x5C, 0x6E] @ js ''C''"
  by (simp_all add: THINK_OPEN_def THINK_CLOSE_def js_def nl_def Let_def)

section \<open>Chunk boundaries (C1)\<close>

lemma lines_whole:
  "complete_lines [] [CHUNK_A @ CHUNK_B] = [js ''data: '' @ P_TEXT [0xE9], []]"
  by (simp add: CHUNK_A_def CHUNK_B_def eval_string eval_decode P_TEXT_def)

lemma lines_split:
  "complete_lines [] [CHUNK_A, CHUNK_B] = [js ''data: '' @ P_TEXT [0xFFFD, 0xFFFD], []]"
  by (simp add: CHUNK_A_def CHUNK_B_def eval_string eval_decode P_TEXT_def)

lemma transform_text: "transform rt False s (EV_TEXT t) = (s, Inr (EV_TEXT t, []))"
  by (simp add: transform_def first_delta_def with_first_delta_def EV_TEXT_def js_def)

lemma demo_parse_text:
  "JSON_parse demo_rt (P_TEXT [0xE9]) = Some (EV_TEXT [0xE9])"
  "JSON_parse demo_rt (P_TEXT [0xFFFD, 0xFFFD]) = Some (EV_TEXT [0xFFFD, 0xFFFD])"
  by (simp_all add: eval_demo eval_payload js_def)

lemma demo_stringify_text:
  "JSON_stringify demo_rt (EV_TEXT [0xE9]) = P_TEXT [0xE9]"
  "JSON_stringify demo_rt (EV_TEXT [0xFFFD, 0xFFFD]) = P_TEXT [0xFFFD, 0xFFFD]"
  by (simp_all add: demo_rt_def stringify_text Let_def)

lemma no_done_text:
  "\<not> js_includes (js ''data: '' @ P_TEXT [0xE9]) (js ''[DONE]'')"
  "\<not> js_includes (js ''data: '' @ P_TEXT [0xFFFD, 0xFFFD]) (js ''[DONE]'')"
  by (simp_all add: eval_string eval_payload)

lemma line_text:
  "process_line demo_rt False s (js ''data: '' @ P_TEXT [0xE9])
     = (s, [frame demo_rt (EV_TEXT [0xE9])], [])"
  "process_line demo_rt False s (js ''data: '' @ P_TEXT [0xFFFD, 0xFFFD])
     = (s, [frame demo_rt (EV_TEXT [0xFFFD, 0xFFFD])], [])"
  by (simp_all add: process_line_def startsWith_data slice_data no_done_text
        demo_parse_text transform_text)

text \<open>
  C1. The claim: whatever the partition of the upstream bytes into chunks, the handler
  processes the same complete lines and writes the same outbound text. The handler
  decodes each chunk on its own (\<open>buffer += chunk.toString()\<close>), so it holds for the
  decoded text of the chunks (\<open>outbound_same_text\<close>, \<open>outbound_ascii\<close>) and fails for the
  bytes: when the boundary falls inside the two-byte character U+00E9, both halves
  decode to U+FFFD. Delivered whole, the event has the line with U+00E9 and the client
  receives it; delivered as \<open>CHUNK_A\<close>, \<open>CHUNK_B\<close>, the line has two U+FFFD and the
  outbound text differs.
\<close>

theorem C1_split_character:
  "complete_lines [] [CHUNK_A @ CHUNK_B] = [js ''data: '' @ P_TEXT [0xE9], []]
   \<and> complete_lines [] [CHUNK_A, CHUNK_B] = [js ''data: '' @ P_TEXT [0xFFFD, 0xFFFD], []]
   \<and> outbound demo_rt False [CHUNK_A @ CHUNK_B] = frame demo_rt (EV_TEXT [0xE9])
   \<and> outbound demo_rt False [CHUNK_A, CHUNK_B] = frame demo_rt (EV_TEXT [0xFFFD, 0xFFFD])
   \<and> outbound demo_rt False [CHUNK_A, CHUNK_B] \<noteq> outbound demo_rt False [CHUNK_A @ CHUNK_B]"
proof -
  have o1: "outbound demo_rt False [CHUNK_A @ CHUNK_B] = frame demo_rt (EV_TEXT [0xE9])"
    unfolding outbound_lines lines_whole by (simp add: line_text empty_line)
  have o2: "outbound demo_rt False [CHUNK_A, CHUNK_B] = frame demo_rt (EV_TEXT [0xFFFD, 0xFFFD])"
    unfolding outbound_lines lines_split by (simp add: line_text empty_line)
  have "frame demo_rt (EV_TEXT [0xFFFD, 0xFFFD]) \<noteq> frame demo_rt (EV_TEXT [0xE9])"
    by (simp add: frame_def demo_stringify_text P_TEXT_def)
  with o1 o2 lines_whole lines_split show ?thesis by simp
qed

section \<open>The end-of-stream sentinel (C5)\<close>

lemma demo_parse_done: "JSON_parse demo_rt (js P_DONE) = Some EV_DONE"
  by (simp add: eval_demo eval_payload js_def)

lemma includes_done: "js_includes (js ''data: '' @ js P_DONE) (js ''[DONE]'')"
  by (simp add: eval_string eval_payload)

text \<open>
  C5. The claim: a line is forwarded verbatim exactly when its payload is the sentinel,
  and a well-formed delta whose content merely contains the sentinel text is
  transformed. The handler tests \<open>line.includes('[DONE]')\<close>: the line below parses to a
  delta with content \<open>[DONE]\<close> and a reasoning field, and it is written as it came, with
  one newline and with its reasoning field, whatever the flag. The transformation it
  skips would have removed the reasoning field.
\<close>

theorem C5_sentinel_inside_content:
  "JSON_parse demo_rt (slice_from (js ''data: '' @ js P_DONE) 6) = Some EV_DONE
   \<and> first_delta EV_DONE =
         Inr (Some (JObj [(js ''content'', JStr (js ''[DONE]'')),
                          (js ''reasoning_content'', JStr (js ''x''))]))
   \<and> process_line rt sr started (js ''data: '' @ js P_DONE)
         = (started, [js ''data: '' @ js P_DONE @ [nl]], [])
   \<and> transform rt False started EV_DONE
         = (started, Inr (EV_TEXT (js ''[DONE]''), []))"
proof -
  have "process_line rt sr started (js ''data: '' @ js P_DONE)
         = (started, [js ''data: '' @ js P_DONE @ [nl]], [])"
    by (simp add: process_line_def startsWith_data includes_done)
  moreover have "first_delta EV_DONE =
         Inr (Some (JObj [(js ''content'', JStr (js ''[DONE]'')),
                          (js ''reasoning_content'', JStr (js ''x''))]))"
    by (simp add: first_delta_def EV_DONE_def js_def)
  moreover have "transform rt False started EV_DONE
         = (started, Inr (EV_TEXT (js ''[DONE]''), []))"
    by (simp add: transform_def first_delta_def with_first_delta_def EV_DONE_def
          EV_TEXT_def js_def)
  ultimately show ?thesis by (simp add: slice_data demo_parse_done)
qed

section \<open>Unparseable lines (C7)\<close>

text \<open>
  A line that starts with \<open>data: \<close> and whose payload \<open>JSON.parse\<close> rejects is
  written as it is, followed by the newline that the split removed; the flag is
  unchanged and the lines after it are processed as before.
\<close>

lemma unparseable_line_text:
  assumes "startsWith line (js ''data: '')" and "JSON_parse rt (slice_from line 6) = None"
  shows "process_line rt sr started line = (started, [line @ [nl]], [])"
  using assms by (simp add: process_line_def)

lemma unparseable_line_skipped:
  assumes "startsWith line (js ''data: '')" and "JSON_parse rt (slice_from line 6) = None"
  shows "forEach_line rt sr started (line # rest) =
           (case forEach_line rt sr started rest of (s, w, d) \<Rightarrow> (s, (line @ [nl]) # w, d))"
  by (simp add: unparseable_line_text [OF assms] split: prod.splits)

text \<open>ASCII bytes come back from the decoding and the encoding as they were.\<close>

lemma res_write_ascii: "\<forall>b \<in> set bs. unat b < 0x80 \<Longrightarrow> res_write (Buffer_toString bs) = bs"
proof (induction bs)
  case Nil
  then show ?case by (simp add: res_write_def Buffer_toString_def)
next
  case (Cons b bs)
  then have b: "unat b < 0x80" and ih: "res_write (Buffer_toString bs) = bs" by simp_all
  have u: "unat (of_nat (unat b) :: 16 word) = unat b"
    using b by (simp add: unsigned_ucast_eq take_bit_nat_eq_self)
  have "Buffer_toString (b # bs) = of_nat (unat b) # Buffer_toString bs"
    using b by (simp add: Buffer_toString_def utf16_def Let_def)
  then show ?case
    using b ih u by (simp add: res_write_def utf8_bytes_def Let_def)
qed

lemma Buffer_toString_ascii:
  "\<forall>b \<in> set bs. unat b < 0x80 \<Longrightarrow> Buffer_toString bs = map ucast bs"
  using utf8_points_ascii [of bs "[]"]
  by (simp add: Buffer_toString_def utf16_def comp_def) (induction bs; simp)

lemma ascii_newline:
  assumes "\<forall>b \<in> set bs. unat b < 0x80" and "0x0A \<notin> set bs"
  shows "nl \<notin> set (Buffer_toString bs)"
proof
  assume "nl \<in> set (Buffer_toString bs)"
  then obtain b where b: "b \<in> set bs" "(ucast b :: 16 word) = nl"
    using assms(1) by (auto simp: Buffer_toString_ascii)
  then have "unat (ucast b :: 16 word) = 10" by (simp add: nl_def)
  moreover have "unat b < 0x80" using assms(1) b(1) by simp
  then have "unat (ucast b :: 16 word) = unat b"
    by (simp add: unsigned_ucast_eq take_bit_nat_eq_self)
  ultimately have "unat b = unat (0x0A :: 8 word)" by simp
  then have "b = 0x0A" by (simp only: word_unat_eq_iff)
  with b(1) assms(2) show False by simp
qed

text \<open>
  So an unparseable line of ASCII bytes reaches the client with the bytes it had,
  however the upstream cut it into chunks.
\<close>

lemma unparseable_ascii_line_bytes:
  assumes ascii: "\<forall>c \<in> set chunks. \<forall>b \<in> set c. unat b < 0x80"
    and whole: "concat chunks = bs @ [0x0A]" and one: "0x0A \<notin> set bs"
    and prefix: "startsWith (Buffer_toString bs) (js ''data: '')"
    and bad: "JSON_parse rt (slice_from (Buffer_toString bs) 6) = None"
  shows "outbound_bytes rt sr chunks = bs @ [0x0A]"
proof -
  let ?L = "Buffer_toString bs"
  have a: "\<forall>b \<in> set (bs @ [0x0A]). unat b < 0x80"
    using ascii whole by (metis UN_iff set_concat)
  then have ab: "\<forall>b \<in> set bs. unat b < 0x80" by simp
  have t: "Buffer_toString (bs @ [0x0A]) = ?L @ [nl]"
    using utf8_points_ascii [OF ab, of "[0x0A]"] utf8_points_ascii [OF ab, of "[]"]
    by (simp add: Buffer_toString_def utf16_def nl_def)
  have n: "nl \<notin> set ?L" using ab one by (rule ascii_newline)
  have "complete_lines [] chunks = butlast (split_on nl (?L @ [nl]))"
    by (simp add: complete_lines_concat Buffer_toString_ascii_chunks [OF ascii] whole t)
  also have "\<dots> = [?L]"
    using split_on_first [OF n, of "[]"] by simp
  finally have l: "complete_lines [] chunks = [?L]" .
  have "outbound_bytes rt sr chunks = res_write (?L @ [nl])"
    unfolding outbound_bytes_lines l
    by (simp add: unparseable_line_text [OF prefix bad])
  also have "\<dots> = bs @ [0x0A]"
    unfolding t [symmetric] using a by (rule res_write_ascii)
  finally show ?thesis .
qed

lemma lines_cafe:
  "complete_lines [] [CAFE_A @ CAFE_B] = [js ''data: caf'' @ [0xE9]]"
  "complete_lines [] [CAFE_A, CAFE_B] = [js ''data: caf'' @ [0xFFFD, 0xFFFD]]"
  by (simp_all add: CAFE_A_def CAFE_B_def eval_string eval_decode)

lemma demo_parse_cafe:
  "JSON_parse demo_rt (slice_from (js ''data: caf'' @ [0xE9]) 6) = None"
  "JSON_parse demo_rt (slice_from (js ''data: caf'' @ [0xFFFD, 0xFFFD]) 6) = None"
  by (simp_all add: eval_demo eval_payload slice_from_def js_def)

lemma prefix_cafe: "startsWith (js ''data: caf'' @ t) (js ''data: '')"
  by (simp add: startsWith_def js_def)

text \<open>
  C7. The claim: a line with the prefix whose payload does not parse reaches the client
  byte-identical, newline included. The handler forwards the text of the line: the
  \<open>catch\<close> writes \<open>line + '\n'\<close>, where \<open>line\<close> was cut from the buffer of decoded
  chunks. Each chunk is decoded on its own (line 162, the defect of C1), so the bytes
  are those of the upstream only when the line is valid UTF-8 and no character of it
  was cut by a chunk boundary. The line \<open>data: caf\<close> with U+00E9 is not JSON. Delivered in one chunk, it
  reaches the client with its bytes. Delivered as \<open>CAFE_A\<close>, \<open>CAFE_B\<close>, each half of
  the character decodes to U+FFFD, and the client receives the bytes EF BF BD EF BF BD
  in place of C3 A9.
\<close>

theorem C7_unparseable_line_bytes:
  "complete_lines [] [CAFE_A @ CAFE_B] = [js ''data: caf'' @ [0xE9]]
   \<and> JSON_parse demo_rt (slice_from (js ''data: caf'' @ [0xE9]) 6) = None
   \<and> outbound_bytes demo_rt sr [CAFE_A @ CAFE_B] = CAFE_A @ CAFE_B
   \<and> complete_lines [] [CAFE_A, CAFE_B] = [js ''data: caf'' @ [0xFFFD, 0xFFFD]]
   \<and> JSON_parse demo_rt (slice_from (js ''data: caf'' @ [0xFFFD, 0xFFFD]) 6) = None
   \<and> outbound_bytes demo_rt sr [CAFE_A, CAFE_B]
       = ascii ''data: caf'' @ [0xEF, 0xBF, 0xBD, 0xEF, 0xBF, 0xBD, 0x0A]
   \<and> outbound_bytes demo_rt sr [CAFE_A, CAFE_B] \<noteq> CAFE_A @ CAFE_B"
proof -
  have o1: "outbound_bytes demo_rt sr [CAFE_A @ CAFE_B] = CAFE_A @ CAFE_B"
    unfolding outbound_bytes_lines lines_cafe
    by (simp add: unparseable_line_text [OF prefix_cafe demo_parse_cafe(1)])
       (simp add: res_write_def utf8_bytes_def CAFE_A_def CAFE_B_def js_def ascii_def nl_def Let_def)
  have o2: "outbound_bytes demo_rt sr [CAFE_A, CAFE_B]
       = ascii ''data: caf'' @ [0xEF, 0xBF, 0xBD, 0xEF, 0xBF, 0xBD, 0x0A]"
    unfolding outbound_bytes_lines lines_cafe
    by (simp add: unparseable_line_text [OF prefix_cafe demo_parse_cafe(2)])
       (simp add: res_write_def utf8_bytes_def js_def ascii_def nl_def Let_def)
  have "ascii ''data: caf'' @ [0xEF, 0xBF, 0xBD, 0xEF, 0xBF, 0xBD, 0x0A] \<noteq> CAFE_A @ CAFE_B"
    by (simp add: CAFE_A_def CAFE_B_def ascii_def)
  then have o3: "outbound_bytes demo_rt sr [CAFE_A, CAFE_B] \<noteq> CAFE_A @ CAFE_B"
    by (simp only: o2) simp
  from lines_cafe demo_parse_cafe o1 o2 o3 show ?thesis by blast
qed

section \<open>Parameter defaulting (C3)\<close>

text \<open>Four of the five parameters of the first handler are replaced only when absent.\<close>

lemma absent_only_defaults:
  "nim_temperature (nimRequest et m ms req) =
     Some (case temperature req of None \<Rightarrow> JNum (85 / 100) | Some v \<Rightarrow> v)"
  "nim_top_p (nimRequest et m ms req) =
     Some (case top_p req of None \<Rightarrow> JNum (95 / 100) | Some v \<Rightarrow> v)"
  "nim_presence_penalty (nimRequest et m ms req) =
     Some (case presence_penalty req of None \<Rightarrow> JNum (6 / 10) | Some v \<Rightarrow> v)"
  "nim_frequency_penalty (nimRequest et m ms req) =
     Some (case frequency_penalty req of None \<Rightarrow> JNum (3 / 10) | Some v \<Rightarrow> v)"
  by (simp_all add: nimRequest_def unless_undefined_def split: option.splits)

text \<open>
  C3. The claim: each of the five generation parameters is replaced by its default only
  when it is absent, so an explicit 0 reaches the upstream. The first handler writes
  \<open>max_tokens || 4096\<close>: an explicit \<open>max_tokens: 0\<close> is sent as 4096. The second
  handler writes \<open>||\<close> for the temperature and the token limit as well, and does not
  forward the other three parameters at all.
\<close>

theorem C3_zero_max_tokens:
  "nim_max_tokens (nimRequest et m ms (req\<lparr>max_tokens := Some (JNum 0)\<rparr>)) = Some (JNum 4096)
   \<and> nim_temperature (nimRequest2 et m ms (req\<lparr>temperature := Some (JNum 0)\<rparr>))
       = Some (JNum (6 / 10))
   \<and> nim_max_tokens (nimRequest2 et m ms (req\<lparr>max_tokens := Some (JNum 0)\<rparr>)) = Some (JNum 9024)
   \<and> nim_top_p (nimRequest2 et m ms (req\<lparr>top_p := Some (JNum 0)\<rparr>)) = None"
  by (simp add: nimRequest_def nimRequest2_def or_else_def)

section \<open>Model resolution (C4)\<close>

lemma lookup_foo: "lookup_model (js ''foo'') = None"
  by (simp add: lookup_model_def MODEL_MAPPING_def Object_prototype_def js_def)

lemma lower_foo: "String_toLowerCase demo_rt (js ''foo'') = js ''foo''"
  by (simp add: demo_rt_def js_def)

lemma hints_foo: "\<not> large_hint (js ''foo'')" "\<not> mid_hint (js ''foo'')"
  by (simp_all add: large_hint_def mid_hint_def js_def startsWith_def)

text \<open>
  C4, the claim as stated, at the identifier \<open>foo\<close>: it is not in the table, the probe
  fails, and it has no indicator of the large or of the mid tier, so the claim sends it
  to the small-tier default. The first handler resolves it to the 70b model, which is
  its mid-tier default (line 102: "Changed default from 8b to 70b").
\<close>

theorem C4_counterexample:
  "lookup_model (js ''foo'') = None
   \<and> \<not> adopt Failed
   \<and> \<not> large_hint (String_toLowerCase demo_rt (js ''foo''))
   \<and> \<not> mid_hint (String_toLowerCase demo_rt (js ''foo''))
   \<and> resolve_model demo_rt Failed (js ''foo'') = Some (Name MID)
   \<and> MID \<noteq> SMALL"
proof -
  have h: "heuristic demo_rt (js ''foo'') = MID"
    using hints_foo by (simp add: heuristic_def Let_def lower_foo large_hint_def mid_hint_def)
  have r: "resolve_model demo_rt Failed (js ''foo'') = Some (Name MID)"
    by (simp add: resolve_model_def resolve_with_def lookup_foo adopt_def h)
  have d: "MID \<noteq> SMALL"
    by (simp add: MID_def SMALL_def js_def)
  show ?thesis
    using r d by (simp add: lookup_foo lower_foo hints_foo adopt_def)
qed

text \<open>
  C4, amended. For an identifier for which \<open>MODEL_MAPPING[model]\<close> yields nothing (it is
  not a key of the table and not the name of a member inherited from
  \<open>Object.prototype\<close>), when the probe is not adopted: an identifier with an indicator
  of the large tier resolves to the 405b model in both handlers; the first handler
  resolves every other identifier to the 70b model; the second handler resolves those
  with an indicator of the mid tier to the 70b model and the rest to the 8b model.
\<close>

theorem C4_fallback_heuristic:
  assumes "lookup_model model = None" and "\<not> adopt p"
  shows "resolve_model rt p model =
           Some (Name (if large_hint (String_toLowerCase rt model) then LARGE else MID))
       \<and> resolve_model2 rt p model =
           Some (Name (if large_hint (String_toLowerCase rt model) then LARGE
                       else if mid_hint (String_toLowerCase rt model) then MID else SMALL))"
  using assms
  by (simp add: resolve_model_def resolve_model2_def resolve_with_def heuristic_def heuristic2_def
        large_hint_def mid_hint_def Let_def)

theorem C4_witness:
  "resolve_model demo_rt (Status 404) (js ''foo'') = Some (Name MID)
   \<and> resolve_model2 demo_rt (Status 404) (js ''foo'') = Some (Name SMALL)"
proof -
  have a: "\<not> adopt (Status 404)" by (simp add: adopt_def)
  show ?thesis
    using C4_fallback_heuristic [OF lookup_foo a, of demo_rt]
    by (simp add: lower_foo hints_foo)
qed

text \<open>The name of an inherited member is truthy in the lookup: no probe, no heuristic.\<close>

lemma inherited_name_skips_heuristic:
  "resolve_model rt p (js ''constructor'') = Some (Inherited (js ''constructor''))"
  by (simp add: resolve_model_def resolve_with_def lookup_model_def MODEL_MAPPING_def Object_prototype_def js_def)

section \<open>Prompt augmentation (C6)\<close>

lemma is_system_ok: "message_ok m \<Longrightarrow> is_system m = Inr (system_message m)"
  by (cases m) (simp_all add: message_ok_def is_system_def system_message_def)

lemma some_system_ok:
  "\<forall>m \<in> set msgs. message_ok m \<Longrightarrow>
   some_system msgs = Inr (\<exists>m \<in> set msgs. system_message m)"
  by (induction msgs) (auto simp: is_system_ok split: bool.splits)

lemma system_content:
  assumes "message_ok m" and "system_message m"
  shows "get_prop m (js ''content'') = Some (JStr (content_of m))"
proof -
  from assms obtain v where v: "get_prop m (js ''content'') = Some v"
    by (cases m) (auto simp: message_ok_def split: option.splits)
  with assms have "\<exists>s. v = JStr s"
    by (cases m; cases v) (auto simp: message_ok_def)
  with v show ?thesis by (auto simp: content_of_def)
qed

lemma enhance_ok: "message_ok m \<Longrightarrow> enhance rt m = Inr (extended m)"
  by (cases "system_message m")
     (simp_all add: enhance_def is_system_ok extended_def system_content js_plus_def)

lemma map_enhance_ok:
  "\<forall>m \<in> set msgs. message_ok m \<Longrightarrow> map_enhance rt msgs = Inr (map extended msgs)"
  by (induction msgs) (auto simp: enhance_ok)

text \<open>
  C6. With the injection enabled, for a sequence of messages of the data model (none is
  \<open>null\<close>, and a system message has a string as its content): without a system message
  the result is the fixed system message followed by the inbound messages; with one,
  the result has the inbound messages in order, every system message with the suffix
  appended to its content and nothing else changed.
\<close>

theorem C6_prompt_augmentation:
  assumes "\<forall>m \<in> set msgs. message_ok m"
  shows "processedMessages rt True msgs =
           Inr (if \<exists>m \<in> set msgs. system_message m then map extended msgs
                else SYSTEM_MESSAGE # msgs)"
  using assms
  by (simp add: processedMessages_def some_system_ok map_enhance_ok SYSTEM_MESSAGE_def)

lemma demo_messages:
  "system_message MSG_SYS" "\<not> system_message MSG_USER" "message_ok MSG_SYS" "message_ok MSG_USER"
  "content_of MSG_SYS = js ''Be brief.''"
  by (simp_all add: message_ok_def system_message_def content_of_def MSG_SYS_def MSG_USER_def js_def)

theorem C6_witness:
  "processedMessages demo_rt True [MSG_USER] = Inr [SYSTEM_MESSAGE, MSG_USER]
   \<and> processedMessages demo_rt True [MSG_USER, MSG_SYS] =
       Inr [MSG_USER,
            JObj [(js ''role'', JStr (js ''system'')),
                  (js ''content'', JStr (js ''Be brief.'' @ SUFFIX))]]"
proof -
  have a: "\<forall>m \<in> set [MSG_USER]. message_ok m" by (simp add: demo_messages)
  have b: "\<forall>m \<in> set [MSG_USER, MSG_SYS]. message_ok m" by (simp add: demo_messages)
  have c: "extended MSG_SYS =
      JObj [(js ''role'', JStr (js ''system'')), (js ''content'', JStr (js ''Be brief.'' @ SUFFIX))]"
    by (simp add: extended_def demo_messages) (simp add: MSG_SYS_def js_def)
  have d: "extended MSG_USER = MSG_USER"
    by (simp add: extended_def demo_messages)
  show ?thesis
    using C6_prompt_augmentation [OF a, of demo_rt] C6_prompt_augmentation [OF b, of demo_rt]
    by (simp add: demo_messages c d)
qed

text \<open>The same result, by length and position.\<close>

lemma extended_content:
  assumes "message_ok m" and "system_message m"
  shows "get_prop (extended m) (js ''content'') = Some (JStr (content_of m @ SUFFIX))
   \<and> (\<forall>k. k \<noteq> js ''content'' \<longrightarrow> get_prop (extended m) k = get_prop m k)"
  using assms by (cases m) (simp_all add: extended_def update_conv' system_message_def)

lemma augmentation_shape:
  assumes "\<forall>m \<in> set msgs. message_ok m"
  shows "\<exists>out. processedMessages rt True msgs = Inr out
     \<and> (if \<exists>m \<in> set msgs. system_message m
        then length out = length msgs
           \<and> (\<forall>i < length msgs.
                 if system_message (msgs ! i)
                 then get_prop (out ! i) (js ''content'')
                        = Some (JStr (content_of (msgs ! i) @ SUFFIX))
                    \<and> (\<forall>k. k \<noteq> js ''content'' \<longrightarrow> get_prop (out ! i) k = get_prop (msgs ! i) k)
                 else out ! i = msgs ! i)
        else length out = length msgs + 1 \<and> out ! 0 = SYSTEM_MESSAGE
           \<and> (\<forall>i < length msgs. out ! Suc i = msgs ! i))"
proof (cases "\<exists>m \<in> set msgs. system_message m")
  case True
  have "processedMessages rt True msgs = Inr (map extended msgs)"
    using assms True
    by (simp add: processedMessages_def some_system_ok map_enhance_ok)
  moreover have "get_prop (extended (msgs ! i)) (js ''content'')
                        = Some (JStr (content_of (msgs ! i) @ SUFFIX))
                    \<and> (\<forall>k. k \<noteq> js ''content'' \<longrightarrow> get_prop (extended (msgs ! i)) k = get_prop (msgs ! i) k)"
    if "i < length msgs" and "system_message (msgs ! i)" for i
    using extended_content [of "msgs ! i"] that assms by simp
  moreover have "extended (msgs ! i) = msgs ! i" if "\<not> system_message (msgs ! i)" for i
    using that by (simp add: extended_def)
  ultimately show ?thesis using True by auto
next
  case False
  have "processedMessages rt True msgs = Inr (SYSTEM_MESSAGE # msgs)"
    using assms False
    by (simp add: processedMessages_def some_system_ok SYSTEM_MESSAGE_def)
  then show ?thesis using False by simp
qed

section \<open>The non-streaming response (C8)\<close>

lemma text_field_cases:
  assumes "text_field v"
  obtains "fragment_of v = []" "\<not> truthy_opt v"
    | t where "v = Some (JStr t)" "t \<noteq> []" "fragment_of v = t"
proof (cases v)
  case None
  then show ?thesis using that(1) by (simp add: fragment_of_def)
next
  case (Some x)
  show ?thesis
  proof (cases x)
    case (JStr t)
    show ?thesis
    proof (cases "t = []")
      case True
      with Some JStr that(1) show ?thesis by (simp add: fragment_of_def)
    next
      case False
      with Some JStr that(2) show ?thesis by (simp add: fragment_of_def)
    qed
  qed (use assms Some that(1) in \<open>simp_all add: text_field_def fragment_of_def\<close>)
qed

lemma or_else_text: "text_field v \<Longrightarrow> or_else v (JStr []) = JStr (fragment_of v)"
  by (erule text_field_cases) (cases v; auto simp: or_else_def)+

lemma convert_choice_spec:
  assumes "well_formed_choice c"
  shows "convert_choice rt sr c = Inr (spec_choice sr c)"
proof -
  from assms obtain m where m: "get_prop c (js ''message'') = Some m" "m \<noteq> JNull"
    and tc: "text_field (get_prop m (js ''content''))"
    and tr: "text_field (get_prop m (js ''reasoning_content''))"
    by (auto simp: well_formed_choice_def split: option.splits json.splits)
  from m obtain kvs where c: "c = JObj kvs" by (cases c) auto
  have mo: "message_opt (JObj kvs) k = get_prop m k" for k
    using m c by (cases m) (simp_all add: message_opt_def)
  have mg: "message_get (JObj kvs) k = Inr (get_prop m k)" for k
    using m c by (cases m) (simp_all add: message_get_def)
  have full: "or_else (get_prop m (js ''content'')) (JStr [])
                = JStr (fragment_of (get_prop m (js ''content'')))"
    using tc by (rule or_else_text)
  have plus: "js_plus3 rt (JStr THINK_OPEN) (JStr t) (JStr (nl # THINK_CLOSE)) (JStr u)
                = Inr (JStr (THINK_OPEN @ t @ [nl] @ THINK_CLOSE @ u))" for t u
    by (simp add: js_plus3_def js_plus_def)
  from tr show ?thesis
  proof (cases rule: text_field_cases)
    case 1
    then show ?thesis
      unfolding c
      by (cases "get_prop m (js ''reasoning_content'')")
         (simp_all add: convert_choice_def spec_choice_def mo mg full Let_def)
  next
    case (2 t)
    then show ?thesis
      unfolding c
      by (simp add: convert_choice_def spec_choice_def mo mg full Let_def plus)
  qed
qed

lemma map_choices_spec:
  "\<forall>c \<in> set cs. well_formed_choice c \<Longrightarrow> map_choices rt sr cs = Inr (map (spec_choice sr) cs)"
  by (induction cs) (simp_all add: convert_choice_spec)

lemma response_model:
  "openaiResponse rt sr now1 now2 m d = Inr r \<Longrightarrow> resp_model r = m"
  by (auto simp: openaiResponse_def split: json.splits option.splits sum.splits)

text \<open>
  C8. For an upstream response of the data model (\<open>choices\<close> is an array of choices,
  each with a message that is not \<open>null\<close> and whose content and reasoning content are
  strings, absent or falsy), the handler produces the outbound response below: its model
  field is the inbound identifier \<open>m\<close>, its choices are those of section 4.2. For any
  upstream response whatever, a response that the handler produces has the inbound
  identifier as its model, so it does not have the resolved upstream model when that
  differs from the inbound identifier. (For other upstream responses the handler may
  throw; it then answers with the error payload of its outer \<open>catch\<close>.)
\<close>

theorem C8_model_echo:
  assumes "get_prop data (js ''choices'') = Some (JArr cs)"
    and "\<forall>c \<in> set cs. well_formed_choice c"
  shows "openaiResponse rt sr now1 now2 m data =
           Inr \<lparr>resp_id = js ''chatcmpl-'' @ Number_toString rt (of_nat now1),
                resp_object = js ''chat.completion'',
                resp_created = now2 div 1000,
                resp_model = m,
                resp_choices = map (spec_choice sr) cs,
                resp_usage = or_else (get_prop data (js ''usage'')) ZERO_USAGE\<rparr>
       \<and> (\<forall>d r. openaiResponse rt sr now1 now2 m d = Inr r \<longrightarrow>
              resp_model r = m
              \<and> (resolve_model rt p m \<noteq> Some (Name m)
                   \<longrightarrow> Some (Name (resp_model r)) \<noteq> resolve_model rt p m))"
proof -
  from assms(1) have "data \<noteq> JNull" by (cases data) auto
  then have "openaiResponse rt sr now1 now2 m data =
           Inr \<lparr>resp_id = js ''chatcmpl-'' @ Number_toString rt (of_nat now1),
                resp_object = js ''chat.completion'',
                resp_created = now2 div 1000,
                resp_model = m,
                resp_choices = map (spec_choice sr) cs,
                resp_usage = or_else (get_prop data (js ''usage'')) ZERO_USAGE\<rparr>"
    using assms by (cases data) (simp_all add: openaiResponse_def map_choices_spec)
  then show ?thesis using response_model by fastforce
qed

lemma resolve_gpt4:
  "resolve_model rt p (js ''gpt-4'') = Some (Name (js ''qwen/qwen3-coder-480b-a35b-instruct''))"
  by (simp add: resolve_model_def resolve_with_def lookup_model_def MODEL_MAPPING_def js_def)

lemma demo_choices:
  "get_prop DATA_OK (js ''choices'') =
     Some (JArr [JObj [(js ''index'', JNum 0),
                        (js ''message'',
                         JObj [(js ''role'', JStr (js ''assistant'')),
                               (js ''content'', JStr (js ''Hello''))]),
                        (js ''finish_reason'', JStr (js ''stop''))]])"
  "get_prop DATA_THINK (js ''choices'') =
     Some (JArr [JObj [(js ''index'', JNum 0),
                        (js ''message'',
                         JObj [(js ''role'', JStr (js ''assistant'')),
                               (js ''reasoning_content'', JStr (js ''why'')),
                               (js ''content'', JStr (js ''Hello''))]),
                        (js ''finish_reason'', JStr (js ''stop''))]])"
  by (simp_all add: DATA_OK_def DATA_THINK_def js_def)

theorem C8_witness:
  "openaiResponse demo_rt False 1234 5678 (js ''gpt-4'') DATA_OK =
     Inr \<lparr>resp_id = js ''chatcmpl-1234'', resp_object = js ''chat.completion'',
          resp_created = 5, resp_model = js ''gpt-4'',
          resp_choices = [\<lparr>choice_index = Some (JNum 0),
                           choice_role = Some (JStr (js ''assistant'')),
                           choice_content = JStr (js ''Hello''),
                           choice_finish_reason = Some (JStr (js ''stop''))\<rparr>],
          resp_usage = ZERO_USAGE\<rparr>
   \<and> openaiResponse demo_rt True 1234 5678 (js ''gpt-4'') DATA_THINK =
     Inr \<lparr>resp_id = js ''chatcmpl-1234'', resp_object = js ''chat.completion'',
          resp_created = 5, resp_model = js ''gpt-4'',
          resp_choices = [\<lparr>choice_index = Some (JNum 0),
                           choice_role = Some (JStr (js ''assistant'')),
                           choice_content =
                             JStr (js ''<think>'' @ [nl] @ js ''why'' @ [nl] @ js ''</think>''
                                   @ [nl, nl] @ js ''Hello''),
                           choice_finish_reason = Some (JStr (js ''stop''))\<rparr>],
          resp_usage = JObj [(js ''total_tokens'', JNum 7)]\<rparr>
   \<and> resolve_model demo_rt Failed (js ''gpt-4'')
       = Some (Name (js ''qwen/qwen3-coder-480b-a35b-instruct''))
   \<and> Some (Name (js ''gpt-4'')) \<noteq> resolve_model demo_rt Failed (js ''gpt-4'')"
proof -
  have wf: "\<forall>c \<in> set [JObj [(js ''index'', JNum 0),
                        (js ''message'',
                         JObj [(js ''role'', JStr (js ''assistant'')),
                               (js ''content'', JStr (js ''Hello''))]),
                        (js ''finish_reason'', JStr (js ''stop''))]]. well_formed_choice c"
    "\<forall>c \<in> set [JObj [(js ''index'', JNum 0),
                        (js ''message'',
                         JObj [(js ''role'', JStr (js ''assistant'')),
                               (js ''reasoning_content'', JStr (js ''why'')),
                               (js ''content'', JStr (js ''Hello''))]),
                        (js ''finish_reason'', JStr (js ''stop''))]]. well_formed_choice c"
    by (simp_all add: well_formed_choice_def text_field_def js_def)
  have num: "Number_toString demo_rt 1234 = js ''1234''"
    by (simp add: demo_rt_def demo_number_def js_def)
  have r: "resolve_model demo_rt Failed (js ''gpt-4'')
             = Some (Name (js ''qwen/qwen3-coder-480b-a35b-instruct''))"
    by (rule resolve_gpt4)
  have ne: "Some (Name (js ''gpt-4'')) \<noteq> resolve_model demo_rt Failed (js ''gpt-4'')"
    unfolding r by (simp add: js_def)
  note e1 = C8_model_echo [OF demo_choices(1) wf(1), of demo_rt False 1234 5678 "js ''gpt-4''" Failed,
      THEN conjunct1]
  note e2 = C8_model_echo [OF demo_choices(2) wf(2), of demo_rt True 1234 5678 "js ''gpt-4''" Failed,
      THEN conjunct1]
  show ?thesis
    using e1 e2 r ne
    by (simp add: num spec_choice_def message_opt_def fragment_of_def
          DATA_OK_def DATA_THINK_def or_else_def THINK_OPEN_def THINK_CLOSE_def js_def)
qed

section \<open>The delta transformation touches the first choice only (C9)\<close>

lemma update_same: "map_of al k = Some v \<Longrightarrow> AList.update k v al = al"
  by (induction al) auto

lemma with_first_delta_array:
  assumes "get_prop data (js ''choices'') = Some (JArr (c0 # rest))"
  shows "with_first_delta data d =
           set_prop data (js ''choices'') (JArr (set_prop c0 (js ''delta'') d # rest))"
  using assms by (simp add: with_first_delta_def)

lemma set_choices_same:
  assumes "get_prop data (js ''choices'') = Some ch"
  shows "set_prop data (js ''choices'') ch = data"
  using assms by (cases data) (simp_all add: update_same)

lemma transform_rest:
  assumes "get_prop data (js ''choices'') = Some (JArr (c0 # rest))"
    and "transform rt sr s data = (s', Inr (data', ds))"
  shows "\<exists>c0'. data' = set_prop data (js ''choices'') (JArr (c0' # rest))"
proof -
  have same: "data = set_prop data (js ''choices'') (JArr (c0 # rest))"
    using set_choices_same [OF assms(1)] by simp
  have "data' = data \<or> (\<exists>d. data' = with_first_delta data d)"
    using assms(2)
    by (auto simp: transform_def Let_def split: sum.splits option.splits if_splits prod.splits)
  then show ?thesis
    using same with_first_delta_array [OF assms(1)] by metis
qed

lemma demo_parse_two: "JSON_parse demo_rt (js P_TWO) = Some EV_TWO"
  by (simp add: eval_demo eval_payload js_def)

lemma no_done_two: "\<not> js_includes (js ''data: '' @ js P_TWO) (js ''[DONE]'')"
  by (simp add: eval_string eval_payload)

lemma choices_two:
  "get_prop EV_TWO (js ''choices'') =
     Some (JArr (JObj [(js ''delta'', JObj [(js ''content'', JStr (js ''a''))])]
                 # [JObj [(js ''delta'', JObj [(js ''reasoning_content'', JStr (js ''x''))])]]))"
  by (simp add: EV_TWO_def)

lemma line_two:
  "process_line demo_rt True True (js ''data: '' @ js P_TWO)
     = (False, [frame demo_rt EV_TWO_CLOSED], [Close])"
proof -
  have "transform demo_rt True True EV_TWO = (False, Inr (EV_TWO_CLOSED, [Close]))"
    by (simp add: transform_def first_delta_def with_first_delta_def reasoning_step_def
          content_step_def js_plus_def EV_TWO_def EV_TWO_CLOSED_def js_def THINK_CLOSE_def)
  then show ?thesis
    by (simp add: process_line_def startsWith_data slice_data no_done_two demo_parse_two)
qed

text \<open>
  C9. For a line that is parsed (it has the prefix, does not contain the sentinel, and
  \<open>JSON.parse\<close> returns \<open>data\<close>) and whose \<open>choices\<close> is an array \<open>c0 # rest\<close>: what is
  written is the event with at most its first choice replaced, every later choice as it
  was parsed, reasoning fields included. (When a string conversion in the
  transformation throws, the line itself is written instead, also unchanged.)
\<close>

theorem C9_other_choices_unchanged:
  assumes "startsWith line (js ''data: '')" and "\<not> js_includes line (js ''[DONE]'')"
    and "JSON_parse rt (slice_from line 6) = Some data"
    and "get_prop data (js ''choices'') = Some (JArr (c0 # rest))"
  shows "case process_line rt sr started line of
           (s, ws, ds) \<Rightarrow>
             (\<exists>c0'. ws = [frame rt (set_prop data (js ''choices'') (JArr (c0' # rest)))])
             \<or> ws = [line @ [nl]]"
proof (cases "transform rt sr started data")
  case (Pair s r)
  show ?thesis
  proof (cases r)
    case (Inl e)
    with Pair assms show ?thesis by (simp add: process_line_def)
  next
    case (Inr p)
    obtain data' ds where p: "p = (data', ds)" by (cases p)
    from transform_rest [OF assms(4)] Pair Inr p
    obtain c0' where "data' = set_prop data (js ''choices'') (JArr (c0' # rest))" by blast
    with Pair Inr p assms show ?thesis by (auto simp: process_line_def)
  qed
qed

theorem C9_witness:
  "process_line demo_rt True True (js ''data: '' @ js P_TWO)
     = (False, [frame demo_rt EV_TWO_CLOSED], [Close])
   \<and> ((\<exists>c0'. [frame demo_rt EV_TWO_CLOSED]
          = [frame demo_rt (set_prop EV_TWO (js ''choices'')
               (JArr (c0' # [JObj [(js ''delta'',
                                    JObj [(js ''reasoning_content'', JStr (js ''x''))])]])))])
        \<or> [frame demo_rt EV_TWO_CLOSED] = [js ''data: '' @ js P_TWO @ [nl]])"
  using C9_other_choices_unchanged
          [OF startsWith_data no_done_two _ choices_two, of demo_rt True True]
  by (simp add: slice_data demo_parse_two line_two)

section \<open>The think delimiters (C2, C10)\<close>

lemma nesting_append:
  "nesting s (xs @ ys) = (case nesting s xs of None \<Rightarrow> None | Some s1 \<Rightarrow> nesting s1 ys)"
  by (induction s xs rule: nesting.induct) auto

lemma nesting_count:
  "nesting s ds = Some s' \<Longrightarrow>
   int (count_list ds Open) - int (count_list ds Close) = (if s' then 1 else 0) - (if s then 1 else 0)"
  by (induction s ds rule: nesting.induct) (auto split: if_splits)

lemma primitive_convertible: "primitive c \<Longrightarrow> convertible rt c"
  by (cases c) (auto simp: primitive_def convertible_def)

lemma THINK_nonempty: "THINK_OPEN \<noteq> []" "THINK_CLOSE \<noteq> []"
  by (simp_all add: THINK_OPEN_def THINK_CLOSE_def)

text \<open>The delimiters of the state machine alternate from the flag it starts with.\<close>

lemma spec_emit_nesting:
  "spec_emit s R C = (pieces, s') \<Longrightarrow> nesting s (marks pieces) = Some s'"
  by (auto simp: spec_emit_def split: if_splits option.splits)

text \<open>The two steps of the handler, by the fragments that arrive.\<close>

lemma reasoning_step_arrived:
  "reasoning_step rt s r =
     (case arrived r of
        None \<Rightarrow> (s, Inr (JStr [], []))
      | Some v \<Rightarrow>
          if s then (s, Inr (v, []))
          else (case ToString rt v of
                  Inl e \<Rightarrow> (s, Inl e)
                | Inr t \<Rightarrow> (True, Inr (JStr (THINK_OPEN @ t), [Open]))))"
  by (auto simp: reasoning_step_def arrived_def js_plus_def split: option.splits sum.splits)

lemma content_step_arrived:
  assumes "case arrived c of None \<Rightarrow> True | Some v \<Rightarrow> convertible rt v"
  shows "content_step rt s c1 c =
     (case arrived c of
        None \<Rightarrow> (s, Inr (c1, []))
      | Some v \<Rightarrow>
          (case ToString rt v of
             Inl e \<Rightarrow> (s, Inl e)
           | Inr t \<Rightarrow>
              if s then
                (case ToString rt c1 of
                   Inl e \<Rightarrow> (s, Inl e)
                 | Inr x \<Rightarrow> (False, Inr (JStr (x @ THINK_CLOSE @ t), [Close])))
              else
                (case js_plus rt c1 v of
                   Inl e \<Rightarrow> (s, Inl e)
                 | Inr w \<Rightarrow> (s, Inr (w, [])))))"
  using assms
  by (auto simp: content_step_def arrived_def js_plus_def convertible_def
        split: option.splits sum.splits if_splits)

text \<open>The transformation of an event whose content fragment converts is the one of the
  state machine.\<close>

lemma transform_spec:
  assumes d: "first_delta data = Inr (Some delta)" and t: "truthy delta"
    and cc: "case get_prop delta (js ''content'') of None \<Rightarrow> True | Some c \<Rightarrow> convertible rt c"
    and e: "spec_emit s (arrived (get_prop delta (js ''reasoning_content'')))
              (arrived (get_prop delta (js ''content''))) = (pieces, s')"
  shows "transform rt True s data =
           (case spec_content rt pieces of
              Inl e \<Rightarrow> (s, Inl e)
            | Inr w \<Rightarrow> (s', Inr (spec_event data delta w, marks pieces)))"
proof -
  have ca: "case arrived (get_prop delta (js ''content'')) of
              None \<Rightarrow> True | Some v \<Rightarrow> convertible rt v"
    using cc by (auto simp: arrived_def split: option.splits)
  show ?thesis
    using e ca
    by (auto simp: transform_def d t Let_def reasoning_step_arrived content_step_arrived [OF ca]
          spec_emit_def spec_event_def spec_content_def THINK_nonempty js_plus_def convertible_def
          split: if_splits option.splits sum.splits)
qed

lemma process_line_spec:
  assumes "content_converts rt line"
  shows "follows_spec rt s line (process_line rt True s line)"
proof (cases "delta_of rt line")
  case None
  then show ?thesis
    by (auto simp: follows_spec_def delta_of_def process_line_def transform_def
          split: if_splits option.splits sum.splits)
next
  case (Some p)
  obtain data delta where p: "p = (data, delta)" by (cases p)
  from Some p have l: "startsWith line (js ''data: '')" "\<not> js_includes line (js ''[DONE]'')"
    "JSON_parse rt (slice_from line 6) = Some data" "first_delta data = Inr (Some delta)"
    "truthy delta"
    by (auto simp: delta_of_def split: if_splits option.splits sum.splits)
  from assms Some p
  have cc: "case get_prop delta (js ''content'') of None \<Rightarrow> True | Some c \<Rightarrow> convertible rt c"
    by (simp add: content_converts_def)
  obtain pieces s' where e:
    "spec_emit s (arrived (get_prop delta (js ''reasoning_content'')))
              (arrived (get_prop delta (js ''content''))) = (pieces, s')"
    by (cases "spec_emit s (arrived (get_prop delta (js ''reasoning_content'')))
              (arrived (get_prop delta (js ''content'')))")
  from transform_spec [OF l(4) l(5) cc e]
  show ?thesis
    by (simp add: follows_spec_def Some p e process_line_def l split: sum.splits)
qed

lemma process_line_alternates:
  assumes "content_converts rt line" and "process_line rt True s line = (s', ws, ds)"
  shows "nesting s ds = Some s'"
proof (cases "delta_of rt line")
  case None
  with process_line_spec [OF assms(1), of s] assms(2) show ?thesis
    by (simp add: follows_spec_def)
next
  case (Some p)
  with process_line_spec [OF assms(1), of s] assms(2) show ?thesis
    by (auto simp: follows_spec_def spec_emit_nesting split: prod.splits sum.splits)
qed

lemma forEach_line_alternates:
  assumes "\<forall>line \<in> set lines. content_converts rt line"
    and "forEach_line rt True s lines = (s', ws, ds)"
  shows "nesting s ds = Some s'"
  using assms
proof (induction lines arbitrary: s s' ws ds)
  case Nil
  then show ?case by simp
next
  case (Cons l ls)
  obtain s1 w1 d1 where p: "process_line rt True s l = (s1, w1, d1)"
    using prod_cases3 by blast
  obtain s2 w2 d2 where f: "forEach_line rt True s1 ls = (s2, w2, d2)"
    using prod_cases3 by blast
  have 1: "nesting s d1 = Some s1"
    using process_line_alternates [OF _ p] Cons.prems(1) by simp
  have 2: "nesting s1 d2 = Some s2"
    using Cons.IH [OF _ f] Cons.prems(1) by simp
  from Cons.prems(2) p f have "s' = s2" and "ds = d1 @ d2" by simp_all
  with 1 2 show ?case by (simp add: nesting_append)
qed

lemma first_delta_with:
  assumes "first_delta data = Inr (Some d0)"
  shows "first_delta (with_first_delta data d) = Inr (Some d)"
proof -
  from assms obtain kvs where data: "data = JObj kvs"
    by (cases data) (auto simp: first_delta_def)
  from assms data obtain ch where ch: "map_of kvs (js ''choices'') = Some ch" "ch \<noteq> JNull"
    by (auto simp: first_delta_def split: option.splits json.splits)
  from assms data ch obtain c0 where c0: "index0 ch = Some c0" "c0 \<noteq> JNull"
      "get_prop c0 (js ''delta'') = Some d0"
    by (cases ch) (auto simp: first_delta_def split: option.splits json.splits)
  from c0(3) obtain ckvs where ckvs: "c0 = JObj ckvs"
    by (cases c0) auto
  let ?c0' = "JObj (AList.update (js ''delta'') d ckvs)"
  have i: "index0 (set_index0 ch ?c0') = Some ?c0'" "set_index0 ch ?c0' \<noteq> JNull"
    using c0(1) ckvs by (cases ch; auto simp: update_conv' split: list.splits)+
  have w: "with_first_delta data d = JObj (AList.update (js ''choices'') (set_index0 ch ?c0') kvs)"
    using data ch c0 ckvs by (simp add: with_first_delta_def)
  show ?thesis
    unfolding w using i
    by (cases "set_index0 ch ?c0'") (auto simp: first_delta_def update_conv')
qed

lemma forEach_line_data_lines:
  "forEach_line rt sr s lines =
     forEach_line rt sr s (filter (\<lambda>l. startsWith l (js ''data: '')) lines)"
  by (induction lines arbitrary: s) (auto simp: process_line_def split: prod.splits)

lemma transform_reasoning_only:
  assumes "first_delta ev = Inr (Some (JObj [(js ''reasoning_content'', JStr R)]))" and "R \<noteq> []"
  shows "transform rt True False ev =
           (True, Inr (with_first_delta ev (JObj [(js ''content'', JStr (THINK_OPEN @ R))]), [Open]))"
proof -
  have ne: "js ''content'' \<noteq> js ''reasoning_content''" by (simp add: js_def)
  show ?thesis
    using assms ne
    by (simp add: transform_def reasoning_step_def content_step_def js_plus_def THINK_nonempty)
qed

lemma transform_content_only:
  assumes "first_delta ev = Inr (Some (JObj [(js ''content'', JStr C)]))" and "C \<noteq> []"
  shows "transform rt True True ev =
           (False, Inr (with_first_delta ev (JObj [(js ''content'', JStr (THINK_CLOSE @ C))]), [Close]))"
proof -
  have ne: "js ''content'' \<noteq> js ''reasoning_content''" by (simp add: js_def)
  show ?thesis
    using assms ne
    by (simp add: transform_def reasoning_step_def content_step_def js_plus_def THINK_nonempty)
qed

lemma lines_rc:
  "complete_lines [] RC_CHUNKS = [js ''data: '' @ js P_R, [], js ''data: '' @ js P_C, []]"
  by (simp add: RC_CHUNKS_def eval_string eval_decode eval_payload)

lemma lines_empty:
  "complete_lines [] EMPTY_CHUNKS = [js ''data: '' @ js P_EMPTY, [], js ''data: '' @ js P_C, []]"
  by (simp add: EMPTY_CHUNKS_def eval_string eval_decode eval_payload)

lemma lines_odd:
  "complete_lines [] ODD_CHUNKS = [js ''data: '' @ js P_ODD, [], js ''data: '' @ js P_C, []]"
  by (simp add: ODD_CHUNKS_def eval_string eval_decode eval_payload)

lemma not_data_empty: "\<not> startsWith [] (js ''data: '')"
  by (simp add: startsWith_def js_def)

lemma demo_parse:
  "JSON_parse demo_rt (js P_R) = Some EV_R"
  "JSON_parse demo_rt (js P_C) = Some EV_C"
  "JSON_parse demo_rt (js P_EMPTY) = Some EV_EMPTY"
  "JSON_parse demo_rt (js P_ODD) = Some EV_ODD"
  by (simp_all add: eval_demo eval_payload js_def)

lemma no_done:
  "\<not> js_includes (js ''data: '' @ js P_R) (js ''[DONE]'')"
  "\<not> js_includes (js ''data: '' @ js P_C) (js ''[DONE]'')"
  "\<not> js_includes (js ''data: '' @ js P_EMPTY) (js ''[DONE]'')"
  "\<not> js_includes (js ''data: '' @ js P_ODD) (js ''[DONE]'')"
  by (simp_all add: eval_string eval_payload)

lemma demo_deltas:
  "first_delta EV_R = Inr (Some (JObj [(js ''reasoning_content'', JStr (js ''R''))]))"
  "first_delta EV_C = Inr (Some (JObj [(js ''content'', JStr (js ''C''))]))"
  "first_delta EV_EMPTY = Inr (Some (JObj [(js ''reasoning_content'', JStr [])]))"
  by (simp_all add: first_delta_def eval_event js_def)

lemma with_text: "with_first_delta (EV_TEXT a) (JObj [(js ''content'', JStr t)]) = EV_TEXT t"
  by (simp add: with_first_delta_def EV_TEXT_def js_def)

lemma ev_text: "EV_R = with_first_delta (EV_TEXT []) (JObj [(js ''reasoning_content'', JStr (js ''R''))])"
  "EV_C = EV_TEXT (js ''C'')"
  by (simp_all add: with_first_delta_def eval_event js_def)

lemma with_R: "with_first_delta EV_R (JObj [(js ''content'', JStr t)]) = EV_TEXT t"
  by (simp add: with_first_delta_def EV_TEXT_def EV_R_def js_def)

lemma delta_of_demo:
  "delta_of demo_rt (js ''data: '' @ js P_R)
     = Some (EV_R, JObj [(js ''reasoning_content'', JStr (js ''R''))])"
  "delta_of demo_rt (js ''data: '' @ js P_C) = Some (EV_C, JObj [(js ''content'', JStr (js ''C''))])"
  "delta_of demo_rt (js ''data: '' @ js P_ODD)
     = Some (EV_ODD, JObj [(js ''reasoning_content'', JStr (js ''r'')),
                           (js ''content'', JObj [(js ''toString'', JNum 0)])])"
  "delta_of rt [] = None"
  by (simp_all add: delta_of_def startsWith_data not_data_empty no_done slice_data demo_parse
        demo_deltas)
     (simp add: first_delta_def EV_ODD_def js_def)

lemma content_converts_rc: "\<forall>line \<in> set (complete_lines [] RC_CHUNKS). content_converts demo_rt line"
  by (simp add: lines_rc content_converts_def delta_of_demo convertible_def)

lemma line_R:
  "process_line demo_rt True False (js ''data: '' @ js P_R)
     = (True, [frame demo_rt (EV_TEXT (THINK_OPEN @ js ''R''))], [Open])"
proof -
  have "js ''R'' \<noteq> []" by (simp add: js_def)
  then show ?thesis
    by (simp add: process_line_def startsWith_data no_done slice_data demo_parse
          transform_reasoning_only [OF demo_deltas(1)] with_R)
qed

lemma line_C:
  "process_line demo_rt True True (js ''data: '' @ js P_C)
     = (False, [frame demo_rt (EV_TEXT (THINK_CLOSE @ js ''C''))], [Close])"
proof -
  have "js ''C'' \<noteq> []" by (simp add: js_def)
  from transform_content_only [OF demo_deltas(2) this]
  have "transform demo_rt True True EV_C = (False, Inr (EV_TEXT (THINK_CLOSE @ js ''C''), [Close]))"
    by (simp add: ev_text(2) with_text)
  then show ?thesis
    by (simp add: process_line_def startsWith_data no_done slice_data demo_parse)
qed

text \<open>The same two lines, with the text that is written.\<close>

lemma line_R_text:
  "process_line demo_rt True False (js ''data: '' @ js P_R)
     = (True, [js ''data: '' @ P_TEXT (js ''<think>'' @ [0x5C, 0x6E] @ js ''R'') @ [nl, nl]], [Open])"
  by (simp add: line_R frame_text quote_think)

lemma line_C_text:
  "process_line demo_rt True True (js ''data: '' @ js P_C)
     = (False,
        [js ''data: '' @ P_TEXT (js ''</think>'' @ [0x5C, 0x6E, 0x5C, 0x6E] @ js ''C'') @ [nl, nl]],
        [Close])"
  by (simp add: line_C frame_text quote_think)

text \<open>
  C2, the claim as stated, at the empty reasoning fragment: the stream delivers a delta
  with only \<open>reasoning_content: ""\<close> and then a delta with only \<open>content: "C"\<close>. The
  handler tests the fragments for truthiness, so it writes both events as they came:
  the first has no content and keeps its \<open>reasoning_content\<close> key, the second has no
  closing delimiter.
\<close>

theorem C2_counterexample:
  "filter (\<lambda>l. startsWith l (js ''data: '')) (complete_lines [] EMPTY_CHUNKS)
     = [js ''data: '' @ js P_EMPTY, js ''data: '' @ js P_C]
   \<and> JSON_parse demo_rt (slice_from (js ''data: '' @ js P_EMPTY) 6) = Some EV_EMPTY
   \<and> JSON_parse demo_rt (slice_from (js ''data: '' @ js P_C) 6) = Some EV_C
   \<and> first_delta EV_EMPTY = Inr (Some (JObj [(js ''reasoning_content'', JStr [])]))
   \<and> first_delta EV_C = Inr (Some (JObj [(js ''content'', JStr (js ''C''))]))
   \<and> snd (on_chunks demo_rt True initial_state EMPTY_CHUNKS)
       = ([frame demo_rt EV_EMPTY, frame demo_rt EV_C], [])
   \<and> EV_EMPTY \<noteq> with_first_delta EV_EMPTY (JObj [(js ''content'', JStr (THINK_OPEN @ []))])
   \<and> EV_C \<noteq> with_first_delta EV_C (JObj [(js ''content'', JStr (THINK_CLOSE @ js ''C''))])"
proof -
  have t1: "transform demo_rt True False EV_EMPTY = (False, Inr (EV_EMPTY, []))"
    by (simp add: transform_def demo_deltas reasoning_step_def content_step_def js_def)
  have t2: "transform demo_rt True False EV_C = (False, Inr (EV_C, []))"
    by (simp add: transform_def demo_deltas reasoning_step_def content_step_def js_plus_def)
       (simp add: with_first_delta_def EV_C_def js_def)
  have p1: "process_line demo_rt True False (js ''data: '' @ js P_EMPTY)
              = (False, [frame demo_rt EV_EMPTY], [])"
    by (simp add: process_line_def startsWith_data no_done slice_data demo_parse t1)
  have p2: "process_line demo_rt True False (js ''data: '' @ js P_C)
              = (False, [frame demo_rt EV_C], [])"
    by (simp add: process_line_def startsWith_data no_done slice_data demo_parse t2)
  have o: "snd (on_chunks demo_rt True initial_state EMPTY_CHUNKS)
       = ([frame demo_rt EV_EMPTY, frame demo_rt EV_C], [])"
    by (simp add: on_chunks_lines initial_state_def lines_empty p1 p2 empty_line)
  have n1: "EV_EMPTY \<noteq> with_first_delta EV_EMPTY (JObj [(js ''content'', JStr (THINK_OPEN @ []))])"
    by (simp add: with_first_delta_def EV_EMPTY_def js_def)
  have n2: "EV_C \<noteq> with_first_delta EV_C (JObj [(js ''content'', JStr (THINK_CLOSE @ js ''C''))])"
    by (simp add: with_first_delta_def EV_C_def THINK_CLOSE_def js_def)
  show ?thesis
    using o n1 n2
    by (simp add: lines_empty startsWith_data not_data_empty slice_data demo_parse demo_deltas)
qed

text \<open>
  C2, amended. With the flag enabled, when the data lines of the stream are two lines
  that do not contain the sentinel text and parse to an event whose first delta has
  only a non-empty \<open>reasoning_content\<close> \<open>R\<close> and to one whose first delta has only a
  non-empty \<open>content\<close> \<open>C\<close>: the handler writes the two events with the first delta
  replaced by one that has only the content \<open><think>\nR\<close>, respectively
  \<open></think>\n\nC\<close>; neither outbound delta has a \<open>reasoning_content\<close> key.
\<close>

theorem C2_think_delimiters:
  assumes "filter (\<lambda>l. startsWith l (js ''data: '')) (complete_lines [] chunks) = [line1, line2]"
    and "\<not> js_includes line1 (js ''[DONE]'')" and "\<not> js_includes line2 (js ''[DONE]'')"
    and "JSON_parse rt (slice_from line1 6) = Some ev1"
    and "JSON_parse rt (slice_from line2 6) = Some ev2"
    and "first_delta ev1 = Inr (Some (JObj [(js ''reasoning_content'', JStr R)]))"
    and "first_delta ev2 = Inr (Some (JObj [(js ''content'', JStr C)]))"
    and "R \<noteq> []" and "C \<noteq> []"
  shows "snd (on_chunks rt True initial_state chunks) =
           ([frame rt (with_first_delta ev1 (JObj [(js ''content'', JStr (THINK_OPEN @ R))])),
             frame rt (with_first_delta ev2 (JObj [(js ''content'', JStr (THINK_CLOSE @ C))]))],
            [Open, Close])
     \<and> first_delta (with_first_delta ev1 (JObj [(js ''content'', JStr (THINK_OPEN @ R))]))
         = Inr (Some (JObj [(js ''content'', JStr (THINK_OPEN @ R))]))
     \<and> first_delta (with_first_delta ev2 (JObj [(js ''content'', JStr (THINK_CLOSE @ C))]))
         = Inr (Some (JObj [(js ''content'', JStr (THINK_CLOSE @ C))]))"
proof -
  have "line1 \<in> set (filter (\<lambda>l. startsWith l (js ''data: '')) (complete_lines [] chunks))"
    and "line2 \<in> set (filter (\<lambda>l. startsWith l (js ''data: '')) (complete_lines [] chunks))"
    by (simp_all add: assms(1))
  then have sw: "startsWith line1 (js ''data: '')" "startsWith line2 (js ''data: '')"
    by simp_all
  have p1: "process_line rt True False line1 =
      (True, [frame rt (with_first_delta ev1 (JObj [(js ''content'', JStr (THINK_OPEN @ R))]))], [Open])"
    using sw assms by (simp add: process_line_def transform_reasoning_only)
  have p2: "process_line rt True True line2 =
      (False, [frame rt (with_first_delta ev2 (JObj [(js ''content'', JStr (THINK_CLOSE @ C))]))], [Close])"
    using sw assms by (simp add: process_line_def transform_content_only)
  have "forEach_line rt True False (complete_lines [] chunks) =
          forEach_line rt True False [line1, line2]"
    by (subst forEach_line_data_lines) (simp add: assms(1))
  then have "snd (on_chunks rt True initial_state chunks) =
           ([frame rt (with_first_delta ev1 (JObj [(js ''content'', JStr (THINK_OPEN @ R))])),
             frame rt (with_first_delta ev2 (JObj [(js ''content'', JStr (THINK_CLOSE @ C))]))],
            [Open, Close])"
    by (simp add: on_chunks_lines initial_state_def p1 p2)
  then show ?thesis
    using first_delta_with [OF assms(6)] first_delta_with [OF assms(7)] by simp
qed

theorem C2_witness:
  "snd (on_chunks demo_rt True initial_state RC_CHUNKS) =
     ([frame demo_rt (EV_TEXT (THINK_OPEN @ js ''R'')),
       frame demo_rt (EV_TEXT (THINK_CLOSE @ js ''C''))], [Open, Close])
   \<and> first_delta (EV_TEXT (THINK_OPEN @ js ''R''))
       = Inr (Some (JObj [(js ''content'', JStr (THINK_OPEN @ js ''R''))]))
   \<and> first_delta (EV_TEXT (THINK_CLOSE @ js ''C''))
       = Inr (Some (JObj [(js ''content'', JStr (THINK_CLOSE @ js ''C''))]))"
proof -
  have f: "filter (\<lambda>l. startsWith l (js ''data: '')) (complete_lines [] RC_CHUNKS)
             = [js ''data: '' @ js P_R, js ''data: '' @ js P_C]"
    by (simp add: lines_rc startsWith_data not_data_empty)
  have p: "JSON_parse demo_rt (slice_from (js ''data: '' @ js P_R) 6) = Some EV_R"
      "JSON_parse demo_rt (slice_from (js ''data: '' @ js P_C) 6) = Some EV_C"
    by (simp_all add: slice_data demo_parse)
  have ne: "js ''R'' \<noteq> []" "js ''C'' \<noteq> []" by (simp_all add: js_def)
  show ?thesis
    using C2_think_delimiters [OF f no_done(1) no_done(2) p demo_deltas(1) demo_deltas(2) ne]
    by (simp add: with_R ev_text(2) with_text)
qed

text \<open>An empty content after the reasoning gets no closing delimiter either: the event
  is written as it came and the flag stays set.\<close>

lemma empty_content_no_closing:
  "on_chunks demo_rt True initial_state R_THEN_EMPTY
     = (\<lparr>buffer = [], reasoningStarted = True\<rparr>,
        [frame demo_rt (EV_TEXT (THINK_OPEN @ js ''R'')), frame demo_rt (EV_TEXT [])],
        [Open])"
proof -
  have l: "complete_lines [] R_THEN_EMPTY
             = [js ''data: '' @ js P_R, [], js ''data: '' @ P_TEXT [], []]"
    by (simp add: R_THEN_EMPTY_def eval_string eval_decode eval_payload)
  have b: "final_buffer [] R_THEN_EMPTY = []"
    by (simp add: R_THEN_EMPTY_def eval_string eval_decode eval_payload)
  have d: "first_delta (EV_TEXT []) = Inr (Some (JObj [(js ''content'', JStr [])]))"
    by (simp add: first_delta_def EV_TEXT_def js_def)
  have t: "transform demo_rt True True (EV_TEXT []) = (True, Inr (EV_TEXT [], []))"
    by (simp add: transform_def d reasoning_step_def content_step_def js_def)
  have "JSON_parse demo_rt (P_TEXT []) = Some (EV_TEXT [])"
    by (simp add: eval_demo eval_payload js_def)
  moreover have "\<not> js_includes (js ''data: '' @ P_TEXT []) (js ''[DONE]'')"
    by (simp add: eval_string eval_payload)
  ultimately have p: "process_line demo_rt True True (js ''data: '' @ P_TEXT [])
             = (True, [frame demo_rt (EV_TEXT [])], [])"
    by (simp add: process_line_def startsWith_data slice_data t)
  show ?thesis
    by (simp add: on_chunks_lines initial_state_def l b line_R p empty_line)
qed

text \<open>
  C10, the claim as stated, at a content fragment whose string conversion throws. The
  first event has the reasoning \<open>r\<close> and a content that is an object with an own
  property \<open>toString\<close>; the second has the content \<open>C\<close>. On the first, the handler
  sets the flag when it builds \<open>'<think>\n' + reasoning\<close>, then
  \<open>'</think>\n\n' + content\<close> throws and the \<open>catch\<close> forwards the line as it came:
  after this line the flag is set and no delimiter has been written, so the difference
  of the claim is 0 and not 1. On the second, the handler writes a closing delimiter:
  the only delimiter of the outbound stream is a closing one, and the difference is -1.
\<close>

theorem C10_counterexample:
  "complete_lines [] ODD_CHUNKS = [js ''data: '' @ js P_ODD, [], js ''data: '' @ js P_C, []]
   \<and> JSON_parse demo_rt (slice_from (js ''data: '' @ js P_ODD) 6) = Some EV_ODD
   \<and> JSON_parse demo_rt (slice_from (js ''data: '' @ js P_C) 6) = Some EV_C
   \<and> forEach_line demo_rt True False (take 1 (complete_lines [] ODD_CHUNKS))
       = (True, [js ''data: '' @ js P_ODD @ [nl]], [])
   \<and> int (count_list [] Open) - int (count_list [] Close) \<noteq> (if True then 1 else 0)
   \<and> on_chunks demo_rt True initial_state ODD_CHUNKS
       = (\<lparr>buffer = [], reasoningStarted = False\<rparr>,
          [js ''data: '' @ js P_ODD @ [nl],
           js ''data: '' @ P_TEXT (js ''</think>'' @ [0x5C, 0x6E, 0x5C, 0x6E] @ js ''C'') @ [nl, nl]],
          [Close])
   \<and> nesting False [Close] = None
   \<and> int (count_list [Close] Open) - int (count_list [Close] Close) = - 1"
proof -
  have d: "first_delta EV_ODD =
      Inr (Some (JObj [(js ''reasoning_content'', JStr (js ''r'')),
                       (js ''content'', JObj [(js ''toString'', JNum 0)])]))"
    by (simp add: first_delta_def EV_ODD_def js_def)
  have t: "transform demo_rt True False EV_ODD = (True, Inl TypeError)"
    by (simp add: transform_def d reasoning_step_def content_step_def js_plus_def js_def)
  have p: "process_line demo_rt True False (js ''data: '' @ js P_ODD)
             = (True, [js ''data: '' @ js P_ODD @ [nl]], [])"
    by (simp add: process_line_def startsWith_data no_done slice_data demo_parse t)
  have b: "final_buffer [] ODD_CHUNKS = []"
    by (simp add: ODD_CHUNKS_def eval_string eval_decode eval_payload)
  show ?thesis
    by (simp add: on_chunks_lines initial_state_def lines_odd p line_C_text empty_line b slice_data
          demo_parse)
qed

text \<open>The line of that event is outside the hypothesis of the amended claim.\<close>

lemma odd_content_does_not_convert: "\<not> content_converts demo_rt (js ''data: '' @ js P_ODD)"
  by (simp add: content_converts_def delta_of_demo convertible_def) (simp add: js_def)

text \<open>
  C10, amended. With the flag enabled, for a stream in which the string conversion of no
  content fragment throws (every stream whose content fragments are strings, numbers,
  booleans or \<open>null\<close>), after the first \<open>n\<close> complete lines, for every \<open>n\<close>: the
  delimiters written so far alternate, starting with an opening one; the flag says
  whether one is open, and the number of opening delimiters minus the number of closing
  ones is 1 when the flag is set and 0 otherwise. The delimiters counted are those in
  the text written: for the next line, the handler does what the state machine of the
  specification prescribes from that flag (\<open>follows_spec\<close>), so the event it writes
  has the content made of the pieces of the state machine, its delimiters in their
  places, and the new flag is the one of the state machine. The first conjunct says
  that the handler processes the complete lines of the chunks in order.
\<close>

theorem C10_delimiters_alternate:
  assumes "\<forall>line \<in> set (complete_lines [] chunks). content_converts rt line"
  shows "on_chunks rt True initial_state chunks =
           (case forEach_line rt True False (complete_lines [] chunks) of
              (s, ws, ds) \<Rightarrow> (\<lparr>buffer = final_buffer [] chunks, reasoningStarted = s\<rparr>, ws, ds))
     \<and> (case forEach_line rt True False (take n (complete_lines [] chunks)) of
          (s, ws, ds) \<Rightarrow>
            nesting False ds = Some s
            \<and> int (count_list ds Open) - int (count_list ds Close) = (if s then 1 else 0)
            \<and> (n < length (complete_lines [] chunks) \<longrightarrow>
                 follows_spec rt s (complete_lines [] chunks ! n)
                   (process_line rt True s (complete_lines [] chunks ! n))))"
proof -
  obtain s ws ds where f:
    "forEach_line rt True False (take n (complete_lines [] chunks)) = (s, ws, ds)"
    using prod_cases3 by blast
  have "\<forall>line \<in> set (take n (complete_lines [] chunks)). content_converts rt line"
    using assms by (meson in_set_takeD)
  from forEach_line_alternates [OF this f] have n: "nesting False ds = Some s" .
  have "follows_spec rt s (complete_lines [] chunks ! n)
          (process_line rt True s (complete_lines [] chunks ! n))"
    if "n < length (complete_lines [] chunks)"
    using that assms by (intro process_line_spec) simp
  with nesting_count [OF n] n f show ?thesis
    by (simp add: on_chunks_lines initial_state_def)
qed

theorem C10_witness:
  "forEach_line demo_rt True False (take 2 (complete_lines [] RC_CHUNKS))
     = (True, [js ''data: '' @ P_TEXT (js ''<think>'' @ [0x5C, 0x6E] @ js ''R'') @ [nl, nl]], [Open])
   \<and> nesting False [Open] = Some True
   \<and> int (count_list [Open] Open) - int (count_list [Open] Close) = 1
   \<and> complete_lines [] RC_CHUNKS ! 2 = js ''data: '' @ js P_C
   \<and> delta_of demo_rt (js ''data: '' @ js P_C)
       = Some (EV_C, JObj [(js ''content'', JStr (js ''C''))])
   \<and> spec_emit True None (Some (JStr (js ''C''))) = ([Mark Close, Content (JStr (js ''C''))], False)
   \<and> spec_content demo_rt [Mark Close, Content (JStr (js ''C''))]
       = Inr (JStr (THINK_CLOSE @ js ''C''))
   \<and> process_line demo_rt True True (js ''data: '' @ js P_C)
       = (False,
          [js ''data: '' @ P_TEXT (js ''</think>'' @ [0x5C, 0x6E, 0x5C, 0x6E] @ js ''C'') @ [nl, nl]],
          [Close])"
  using C10_delimiters_alternate [OF content_converts_rc, of 2]
  by (simp add: lines_rc line_R_text line_C_text empty_line delta_of_demo spec_emit_def
        spec_content_def)

end
